theory Spec2Isabelle
  imports Main
begin

section \<open>The configuration object (class TemoaConfig)\<close>

text \<open>
  Exceptions of the Python code are values. \<open>Exception msg\<close> is the generic
  exception that \<open>build\<close> raises with a message; the others are the built-in
  exceptions that the interpreter raises inside the handlers.
\<close>

datatype exn =
    InputNotSpecified
  | CannotLocateInput string
  | OutputNotSpecified
  | CannotLocateOutput string
  | ScenarioNotSpecified
  | TypeError
  | ValueError
  | IndexError
  | OperationalError string

text \<open>
  One entry of the private list \<open>__error\<close>: the dictionary
  \<open>{'line': [a, b], 'index': [a, b], 'value': text}\<close>.
\<close>

record err =
  e_line :: "nat \<times> nat"
  e_index :: "nat \<times> nat"
  e_value :: string

text \<open>
  The attributes that \<open>__init__\<close> creates (\<open>output_file\<close> is \<open>self.output\<close>
  and \<open>c_method\<close> is \<open>self.method\<close>: both names are reserved words of Isabelle).
  Floats are kept as the decimal literal that \<open>float\<close> was given. The six queues are lists, front first;
  a done queue receives the current scenario, which may be \<open>None\<close>.
\<close>

record config =
  error :: "err list"
  mga_todo :: "string list"
  mga_done :: "string option list"
  moo_todo :: "string list"
  moo_done :: "string option list"
  mgpa_todo :: "string list"
  mgpa_done :: "string option list"
  file_location :: "string option"
  dot_dat :: "string list"
  output_file :: "string option"
  scenario :: "string option"
  saveEXCEL :: bool
  myopic :: bool
  myopic_periods :: nat
  KeepMyopicDBs :: bool
  saveDUALS :: bool
  saveTEXTFILE :: bool
  how_to_cite :: "bool option"
  version :: bool
  neos :: bool
  c_method :: "string option"
  threads :: "string option"
  tee :: bool
  generateSolverLP :: bool
  keepPyomoLP :: bool
  mga_slack :: "string option"
  mga_iter :: "nat option"
  mga_method :: "string option"
  moo_f1 :: "string option"
  moo_f2 :: "string option"
  moo_c :: "string option"
  moo_ncaps :: "nat option"
  mgpa_f1 :: "string option"
  mgpa_f2 :: "string option"
  mgpa_c :: "string option"
  mgpa_ncaps :: "nat option"
  mgpa_slack1 :: "string option"
  mgpa_slack2 :: "string option"
  mgpa_iter :: "nat option"
  mgpa_method :: "string option"
  graph_format :: "string option"
  show_capacity :: bool
  graph_type :: string
  use_splines :: bool
  path_to_data :: string
  path_to_logs :: string
  path_to_lp_files :: "string option"
  abort_temoa :: bool
  solver :: "string option"

text \<open>
  \<open>re.sub('temoa_model$', 'data_files', d)\<close>: the pattern matches only at the end
  of \<open>d\<close>, or just before a final newline.
\<close>

definition sub_temoa_model :: "string \<Rightarrow> string" where
  "sub_temoa_model d =
     (let n = length d in
      if 11 \<le> n \<and> drop (n - 11) d = ''temoa_model'' then take (n - 11) d @ ''data_files''
      else if 12 \<le> n \<and> drop (n - 12) d = ''temoa_model'' @ [CHR 0x0A]
        then take (n - 12) d @ ''data_files'' @ [CHR 0x0A]
      else d)"

text \<open>
  \<open>__init__\<close>. \<open>module_dir\<close> is \<open>dirname(abspath(__file__))\<close>, \<open>d_solver\<close> the
  keyword argument of that name when it is given; \<open>os.sep\<close> is \<open>/\<close>.
\<close>

definition init_config :: "string \<Rightarrow> string option \<Rightarrow> config" where
  "init_config module_dir d_solver =
     \<lparr> error = [], mga_todo = [], mga_done = [], moo_todo = [], moo_done = [],
       mgpa_todo = [], mgpa_done = [],
       file_location = None, dot_dat = [], output_file = None, scenario = None,
       saveEXCEL = False, myopic = False, myopic_periods = 0, KeepMyopicDBs = False,
       saveDUALS = False, saveTEXTFILE = False, how_to_cite = None, version = False,
       neos = False, c_method = None, threads = None, tee = False,
       generateSolverLP = False, keepPyomoLP = False,
       mga_slack = None, mga_iter = None, mga_method = None,
       moo_f1 = None, moo_f2 = None, moo_c = None, moo_ncaps = None,
       mgpa_f1 = None, mgpa_f2 = None, mgpa_c = None, mgpa_ncaps = None,
       mgpa_slack1 = None, mgpa_slack2 = None, mgpa_iter = None, mgpa_method = None,
       graph_format = None, show_capacity = False, graph_type = ''separate_vintages'',
       use_splines = False,
       path_to_data = sub_temoa_model module_dir,
       path_to_logs = sub_temoa_model module_dir @ ''/'' @ ''debug_logs'',
       path_to_lp_files = None, abort_temoa = False, solver = d_solver \<rparr>"

subsection \<open>Advancing a sweep: \<open>next_mga\<close>, \<open>next_moo\<close>, \<open>next_mgpa\<close>\<close>

text \<open>
  Each method returns its boolean together with the updated object.
  \<open>Queue.put\<close> appends at the back, \<open>Queue.get\<close> removes the front.
\<close>

fun next_mga :: "config \<Rightarrow> bool \<times> config" where
  "next_mga c =
     (case mga_todo c of
        x # rest \<Rightarrow>
          (True, c\<lparr>mga_done := mga_done c @ [scenario c], scenario := Some x, mga_todo := rest\<rparr>)
      | [] \<Rightarrow> (False, c))"

fun next_moo :: "config \<Rightarrow> bool \<times> config" where
  "next_moo c =
     (case moo_todo c of
        x # rest \<Rightarrow>
          (True, c\<lparr>moo_done := moo_done c @ [scenario c], scenario := Some x, moo_todo := rest\<rparr>)
      | [] \<Rightarrow> (False, c))"

fun next_mgpa :: "config \<Rightarrow> bool \<times> config" where
  "next_mgpa c =
     (case mgpa_todo c of
        x # rest \<Rightarrow>
          (True, c\<lparr>mgpa_done := mgpa_done c @ [scenario c], scenario := Some x, mgpa_todo := rest\<rparr>)
      | [] \<Rightarrow> (False, c))"

text \<open>Calling a method \<open>n\<close> times in a row, keeping the object of the last call.\<close>

fun repeat_next :: "(config \<Rightarrow> bool \<times> config) \<Rightarrow> nat \<Rightarrow> config \<Rightarrow> bool list \<times> config" where
  "repeat_next f 0 c = ([], c)"
| "repeat_next f (Suc n) c =
     (let (b, c') = f c; (bs, c'') = repeat_next f n c' in (b # bs, c''))"

section \<open>Building the sweep queues (\<open>build\<close>, lines 666 to 679)\<close>

text \<open>\<open>str(i)\<close> for a non-negative integer: its decimal digits.\<close>

definition digit_char :: "nat \<Rightarrow> char" where
  "digit_char d = ''0123456789'' ! d"

function str_nat :: "nat \<Rightarrow> string" where
  "str_nat n = (if n < 10 then [digit_char n] else str_nat (n div 10) @ [digit_char (n mod 10)])"
  by pat_completeness auto
termination
  by (relation "measure id") auto

declare str_nat.simps [simp del]

text \<open>
  \<open>self.scenario + '...'\<close>: adding a string to \<open>None\<close> raises \<open>TypeError\<close>.
\<close>

definition concat_str :: "string option \<Rightarrow> string \<Rightarrow> exn + string" where
  "concat_str s t = (case s of None \<Rightarrow> Inl TypeError | Some b \<Rightarrow> Inr (b @ t))"

text \<open>The truth value of an attribute that is \<open>None\<close> or an integer.\<close>

definition truthy :: "nat option \<Rightarrow> bool" where
  "truthy v = (case v of None \<Rightarrow> False | Some n \<Rightarrow> n \<noteq> 0)"

text \<open>
  The loops \<open>for i in range(n)\<close> run over the list \<open>[0..<n]\<close>; \<open>Queue.put\<close>
  appends at the back.
\<close>

fun mga_loop :: "nat list \<Rightarrow> config \<Rightarrow> exn + config" where
  "mga_loop [] c = Inr c"
| "mga_loop (i # is) c =
     (case concat_str (scenario c) (''_mga_'' @ str_nat i) of
        Inl e \<Rightarrow> Inl e
      | Inr name \<Rightarrow> mga_loop is (c\<lparr>mga_todo := mga_todo c @ [name]\<rparr>))"

fun moo_loop :: "nat list \<Rightarrow> config \<Rightarrow> exn + config" where
  "moo_loop [] c = Inr c"
| "moo_loop (i # is) c =
     (case concat_str (scenario c) (''_moo_'' @ str_nat i) of
        Inl e \<Rightarrow> Inl e
      | Inr name \<Rightarrow> moo_loop is (c\<lparr>moo_todo := moo_todo c @ [name]\<rparr>))"

fun mgpa_inner :: "nat \<Rightarrow> nat list \<Rightarrow> config \<Rightarrow> exn + config" where
  "mgpa_inner i [] c = Inr c"
| "mgpa_inner i (j # js) c =
     (case concat_str (scenario c) (''_moo_'' @ str_nat i @ ''_mga_'' @ str_nat j) of
        Inl e \<Rightarrow> Inl e
      | Inr name \<Rightarrow> mgpa_inner i js (c\<lparr>mgpa_todo := mgpa_todo c @ [name]\<rparr>))"

fun mgpa_outer :: "nat list \<Rightarrow> config \<Rightarrow> exn + config" where
  "mgpa_outer [] c = Inr c"
| "mgpa_outer (i # is) c =
     (case concat_str (scenario c) (''_moo_'' @ str_nat i) of
        Inl e \<Rightarrow> Inl e
      | Inr name \<Rightarrow>
          (case (let c1 = c\<lparr>mgpa_todo := mgpa_todo c @ [name]\<rparr> in
                 if truthy (mgpa_iter c1) then mgpa_inner i [0..<the (mgpa_iter c1)] c1
                 else Inr c1) of
             Inl e \<Rightarrow> Inl e
           | Inr c2 \<Rightarrow> mgpa_outer is c2))"

definition populate_mga :: "config \<Rightarrow> exn + config" where
  "populate_mga c =
     (if truthy (mga_iter c) then mga_loop [0..<the (mga_iter c)] c else Inr c)"

definition populate_moo :: "config \<Rightarrow> exn + config" where
  "populate_moo c =
     (if truthy (moo_ncaps c) then moo_loop [0..<the (moo_ncaps c)] c else Inr c)"

definition populate_mgpa :: "config \<Rightarrow> exn + config" where
  "populate_mgpa c =
     (if truthy (mgpa_ncaps c) then mgpa_outer [0..<the (mgpa_ncaps c)] c else Inr c)"

definition populate :: "config \<Rightarrow> exn + config" where
  "populate c =
     (case populate_mga c of
        Inl e \<Rightarrow> Inl e
      | Inr c1 \<Rightarrow> (case populate_moo c1 of Inl e \<Rightarrow> Inl e | Inr c2 \<Rightarrow> populate_mgpa c2))"



section \<open>Validation of the input and output files (\<open>build\<close>, lines 645 to 664)\<close>

text \<open>
  \<open>os.path.splitext\<close> on a POSIX system: the extension starts at the last dot of the
  last path component, unless that component has only dots before it. \<open>rfind\<close> is
  \<open>str.rfind\<close> for a single character, \<open>-1\<close> when the character does not occur.
\<close>

definition rfind :: "char \<Rightarrow> string \<Rightarrow> int" where
  "rfind ch p =
     (case filter (\<lambda>k. p ! k = ch) (rev [0..<length p]) of
        [] \<Rightarrow> - 1
      | k # _ \<Rightarrow> int k)"

definition splitext :: "string \<Rightarrow> string \<times> string" where
  "splitext p =
     (let sepIndex = rfind (CHR ''/'') p; dotIndex = rfind (CHR ''.'') p in
      if dotIndex > sepIndex
         \<and> list_ex (\<lambda>k. p ! k \<noteq> CHR ''.'') [nat (sepIndex + 1)..<nat dotIndex]
      then (take (nat dotIndex) p, drop (nat dotIndex) p)
      else (p, []))"

text \<open>
  The loop over \<open>self.dot_dat\<close> that sets the flag \<open>db_or_dat\<close> (true: the input
  is a database). \<open>isfile\<close> is the state of the disk.
\<close>

fun mode_loop :: "(string \<Rightarrow> bool) \<Rightarrow> string list \<Rightarrow> bool \<Rightarrow> exn + bool" where
  "mode_loop isfile [] db_or_dat = Inr db_or_dat"
| "mode_loop isfile (i # is) db_or_dat =
     (if \<not> isfile i then Inl (CannotLocateInput i)
      else let i_ext = snd (splitext i) in
        if i_ext = ''.dat'' \<or> i_ext = ''.txt'' then mode_loop isfile is False
        else if i_ext = ''.db'' \<or> i_ext = ''.sqlite'' \<or> i_ext = ''.sqlite3''
                \<or> i_ext = ''sqlitedb''
          then mode_loop isfile is True
        else mode_loop isfile is db_or_dat)"

definition input_mode :: "(string \<Rightarrow> bool) \<Rightarrow> config \<Rightarrow> exn + bool" where
  "input_mode isfile c =
     (if dot_dat c = [] then Inl InputNotSpecified
      else mode_loop isfile (dot_dat c) True)"

text \<open>The truth value of an attribute that is \<open>None\<close> or a string.\<close>

definition str_truthy :: "string option \<Rightarrow> bool" where
  "str_truthy v = (case v of None \<Rightarrow> False | Some s \<Rightarrow> s \<noteq> [])"

text \<open>
  The three checks on the output file and the scenario name. \<open>isfile(None)\<close> raises
  \<open>TypeError\<close>; \<open>and\<close> evaluates its right operand only when the left one is true.
\<close>

definition check_output :: "(string \<Rightarrow> bool) \<Rightarrow> config \<Rightarrow> bool \<Rightarrow> exn + unit" where
  "check_output isfile c db_or_dat =
     (if \<not> str_truthy (output_file c) \<and> db_or_dat then Inl OutputNotSpecified
      else case (if db_or_dat
                 then (case output_file c of
                         None \<Rightarrow> Inl TypeError
                       | Some p \<Rightarrow> if \<not> isfile p then Inl (CannotLocateOutput p) else Inr ())
                 else Inr ()) of
        Inl e \<Rightarrow> Inl e
      | Inr _ \<Rightarrow>
          if \<not> str_truthy (scenario c) \<and> db_or_dat then Inl ScenarioNotSpecified
          else Inr ())"

text \<open>Both steps in sequence; the result is the mode when no check fails.\<close>

definition validate :: "(string \<Rightarrow> bool) \<Rightarrow> config \<Rightarrow> exn + bool" where
  "validate isfile c =
     (case input_mode isfile c of
        Inl e \<Rightarrow> Inl e
      | Inr db_or_dat \<Rightarrow>
          (case check_output isfile c db_or_dat of
             Inl e \<Rightarrow> Inl e
           | Inr _ \<Rightarrow> Inr db_or_dat))"

text \<open>
  The classification of one file as the specification words it: flat text for
  \<open>.dat\<close> and \<open>.txt\<close>, relational for \<open>.db\<close>, \<open>.sqlite\<close> and \<open>.sqlite3\<close>, none
  for any other extension. \<open>True\<close> stands for relational.
\<close>

definition spec_class :: "string \<Rightarrow> bool option" where
  "spec_class f =
     (let e = snd (splitext f) in
      if e \<in> {''.dat'', ''.txt''} then Some False
      else if e \<in> {''.db'', ''.sqlite'', ''.sqlite3''} then Some True
      else None)"

text \<open>The classification of the last file of a list that has one, if any.\<close>

definition last_class :: "string list \<Rightarrow> bool option" where
  "last_class fs =
     (case filter (\<lambda>f. spec_class f \<noteq> None) fs of
        [] \<Rightarrow> None
      | r # rs \<Rightarrow> spec_class (last (r # rs)))"

section \<open>The exporter (\<open>db_2_dat\<close>)\<close>

subsection \<open>The database\<close>

text \<open>
  A cell of an SQLite table as Python receives it: an integer, a float (kept as the
  text that \<open>repr\<close> gives it), a string or \<open>None\<close>. A table has its column names and
  its rows in the order in which a cursor yields them; a database maps the table names
  to the tables. Names are compared as they are written.
\<close>

datatype val = VInt int | VReal string | VText string | VNull

record table =
  cols :: "string list"
  rows :: "val list list"

type_synonym database = "string \<rightharpoonup> table"

fun col_index :: "string \<Rightarrow> string list \<Rightarrow> nat option" where
  "col_index n [] = None"
| "col_index n (c # cs) = (if c = n then Some 0 else map_option Suc (col_index n cs))"

definition cell :: "val list \<Rightarrow> nat \<Rightarrow> val" where
  "cell r k = (if k < length r then r ! k else VNull)"

text \<open>
  A string literal of a statement is built by putting the text between two quotes, so
  the text must not contain a quote itself for the statement to be the comparison that
  the source writes; a text with a quote is reported as \<open>OperationalError\<close>.
\<close>

definition sql_literal_ok :: "string \<Rightarrow> bool" where
  "sql_literal_ok s = (CHR 0x27 \<notin> set s)"

text \<open>
  \<open>SELECT * FROM t\<close> and \<open>SELECT * FROM t WHERE c == 'v1' OR c == 'v2' ...\<close>: the
  rows whose cell in column \<open>c\<close> is one of the given strings.
\<close>

definition select_all :: "database \<Rightarrow> string \<Rightarrow> exn + val list list" where
  "select_all db t =
     (case db t of
        None \<Rightarrow> Inl (OperationalError (''no such table: '' @ t))
      | Some tb \<Rightarrow> Inr (rows tb))"

definition select_where :: "database \<Rightarrow> string \<Rightarrow> string \<Rightarrow> string list \<Rightarrow> exn + val list list" where
  "select_where db t c vs =
     (case db t of
        None \<Rightarrow> Inl (OperationalError (''no such table: '' @ t))
      | Some tb \<Rightarrow>
          (case col_index c (cols tb) of
             None \<Rightarrow> Inl (OperationalError (''no such column: '' @ c))
           | Some k \<Rightarrow>
               if list_all sql_literal_ok vs
               then Inr (filter (\<lambda>r. cell r k \<in> VText ` set vs) (rows tb))
               else Inl (OperationalError ''syntax error'')))"



subsection \<open>Python's \<open>str\<close> and \<open>repr\<close>, and the two substitutions\<close>

definition nl :: string where
  "nl = [CHR 0x0A]"

definition str_int :: "int \<Rightarrow> string" where
  "str_int i = (if i < 0 then ''-'' @ str_nat (nat (- i)) else str_nat (nat i))"

definition hex_digit :: "nat \<Rightarrow> char" where
  "hex_digit d = ''0123456789abcdef'' ! d"

text \<open>
  \<open>repr\<close> of a string: double quotes when the string has a single quote and no double
  quote, single quotes otherwise; the quote, the backslash and the control characters
  are escaped. Characters beyond ASCII are kept.
\<close>

definition repr_char :: "char \<Rightarrow> char \<Rightarrow> string" where
  "repr_char quote ch =
     (if ch = quote \<or> ch = CHR 0x5C then [CHR 0x5C, ch]
      else if ch = CHR 0x09 then [CHR 0x5C, CHR ''t'']
      else if ch = CHR 0x0A then [CHR 0x5C, CHR ''n'']
      else if ch = CHR 0x0D then [CHR 0x5C, CHR ''r'']
      else if (of_char ch :: nat) < 32 \<or> ch = CHR 0x7F
        then [CHR 0x5C, CHR ''x'', hex_digit ((of_char ch :: nat) div 16),
              hex_digit ((of_char ch :: nat) mod 16)]
      else [ch])"

definition repr_str :: "string \<Rightarrow> string" where
  "repr_str s =
     (let quote = (if CHR 0x27 \<in> set s \<and> CHR 0x22 \<notin> set s then CHR 0x22 else CHR 0x27)
      in [quote] @ concat (map (repr_char quote) s) @ [quote])"

fun py_repr :: "val \<Rightarrow> string" where
  "py_repr (VInt i) = str_int i"
| "py_repr (VReal r) = r"
| "py_repr (VText s) = repr_str s"
| "py_repr VNull = ''None''"

fun py_str :: "val \<Rightarrow> string" where
  "py_str (VText s) = s"
| "py_str v = py_repr v"

fun join_comma :: "string list \<Rightarrow> string" where
  "join_comma [] = []"
| "join_comma [x] = x"
| "join_comma (x # y # ys) = x @ '', '' @ join_comma (y # ys)"

text \<open>\<open>str\<close> of a tuple; a tuple of one element has a comma after it.\<close>

definition str_tuple :: "val list \<Rightarrow> string" where
  "str_tuple vs =
     ''('' @ join_comma (map py_repr vs) @ (if length vs = 1 then '','' else []) @ '')''"

text \<open>
  \<open>re.sub('[(]', '', s)\<close> followed by \<open>re.sub('[\',)]', '    ', s)\<close>.
\<close>

definition sub_punct :: "string \<Rightarrow> string" where
  "sub_punct s =
     concat (map (\<lambda>ch. if ch = CHR 0x27 \<or> ch = CHR '','' \<or> ch = CHR '')'' then ''    '' else [ch])
       (filter (\<lambda>ch. ch \<noteq> CHR ''('') s))"

text \<open>The class \<open>\w\<close> of the regular expressions, on ASCII.\<close>

definition is_word :: "char \<Rightarrow> bool" where
  "is_word ch =
     (let n = (of_char ch :: nat) in
      (48 \<le> n \<and> n \<le> 57) \<or> (65 \<le> n \<and> n \<le> 90) \<or> (97 \<le> n \<and> n \<le> 122) \<or> n = 95)"

text \<open>
  \<open>re.search(r'^\W+$', s)\<close> finds something exactly when \<open>s\<close> is not empty and has
  no word character.
\<close>

definition search_nonword :: "string \<Rightarrow> bool" where
  "search_nonword s = (s \<noteq> [] \<and> list_all (\<lambda>ch. \<not> is_word ch) s)"

subsection \<open>\<open>query_table\<close>\<close>

text \<open>
  One entry of \<open>table_list\<close>. The flag is a string (empty: no flag) or a list of
  strings.
\<close>

datatype flag = Flag string | FlagList "string list"

datatype t_properties =
  tspec (t_type: string) (t_name: string) (t_dtname: string) (t_flag: flag) (t_index: nat)

text \<open>
  The query of an entry and the name that its section gets, as the three branches of
  \<open>query_table\<close> choose them.
\<close>

definition db_query :: "t_properties \<Rightarrow> database \<Rightarrow> exn + val list list" where
  "db_query t db =
     (case t_flag t of
        FlagList _ \<Rightarrow> select_where db (t_name t) ''flag'' [''p'', ''pb'', ''ps'']
      | Flag fl \<Rightarrow>
          if fl \<noteq> [] then select_where db (t_name t) ''flag'' [fl]
          else select_all db (t_name t))"

definition section_name :: "t_properties \<Rightarrow> string" where
  "section_name t =
     (case t_flag t of
        FlagList _ \<Rightarrow> t_dtname t
      | Flag fl \<Rightarrow> if fl \<noteq> [] then t_dtname t else t_name t)"

definition section_header :: "t_properties \<Rightarrow> string" where
  "section_header t =
     (if t_type t = ''set'' then ''set '' @ section_name t @ '' := '' @ nl
      else ''param '' @ section_name t @ '' := '' @ nl)"

text \<open>The line of one row when \<open>t_index\<close> is 0: \<open>str(line[0])\<close>.\<close>

definition first_field_row :: "val list \<Rightarrow> exn + string" where
  "first_field_row line =
     (case line of [] \<Rightarrow> Inl IndexError | x # _ \<Rightarrow> Inr (py_str x @ nl))"

text \<open>
  The line of one row when \<open>t_index\<close> is not 0: the two slices of the row, each
  as the text of a tuple with the two substitutions applied, and the marker between
  them unless \<open>search_afcom\<close> finds something.
\<close>

definition before_comments :: "nat \<Rightarrow> val list \<Rightarrow> string" where
  "before_comments idx line = sub_punct (str_tuple (take (idx + 1) line))"

definition after_comments :: "nat \<Rightarrow> val list \<Rightarrow> string" where
  "after_comments idx line = sub_punct (str_tuple (drop (idx + 2) line))"

definition split_row :: "nat \<Rightarrow> val list \<Rightarrow> string" where
  "split_row idx line =
     (if \<not> search_nonword (after_comments idx line)
      then before_comments idx line @ ''# '' @ after_comments idx line @ nl
      else before_comments idx line @ nl)"

fun write_rows :: "nat \<Rightarrow> val list list \<Rightarrow> exn + string" where
  "write_rows idx [] = Inr []"
| "write_rows idx (line # ls) =
     (case (if idx = 0 then first_field_row line else Inr (split_row idx line)) of
        Inl e \<Rightarrow> Inl e
      | Inr str_row \<Rightarrow>
          (case write_rows idx ls of Inl e \<Rightarrow> Inl e | Inr s \<Rightarrow> Inr (str_row @ s)))"

text \<open>
  \<open>query_table\<close> takes the text written to the file so far and returns the text
  after it: unchanged when \<open>fetchone\<close> gives \<open>None\<close>, with the section otherwise.
  What the function prints is not part of the file.
\<close>

definition query_table :: "t_properties \<Rightarrow> database \<Rightarrow> string \<Rightarrow> exn + string" where
  "query_table t db f =
     (case db_query t db of
        Inl e \<Rightarrow> Inl e
      | Inr rs \<Rightarrow>
          if rs = [] then Inr f
          else (case write_rows (t_index t) rs of
                  Inl e \<Rightarrow> Inl e
                | Inr body \<Rightarrow> Inr (f @ section_header t @ body @ '';'' @ nl @ nl)))"


text \<open>The loop over \<open>table_list\<close>: an entry is exported when its table exists.\<close>

fun export_tables :: "t_properties list \<Rightarrow> database \<Rightarrow> string \<Rightarrow> exn + string" where
  "export_tables [] db f = Inr f"
| "export_tables (t # ts) db f =
     (if db (t_name t) \<noteq> None
      then (case query_table t db f of Inl e \<Rightarrow> Inl e | Inr f' \<Rightarrow> export_tables ts db f')
      else export_tables ts db f)"

subsection \<open>The sections of the sweeps\<close>







subsection \<open>The cleanup of a myopic run\<close>





subsection \<open>\<open>db_2_dat\<close>\<close>




section \<open>The lexer\<close>

subsection \<open>Regular expressions as Python matches them\<close>

text \<open>
  The character classes of the patterns, on ASCII: \<open>\s\<close> (which is also what
  \<open>str.split()\<close> splits at), \<open>\d\<close>, and \<open>\w\<close> above.
\<close>

definition is_space :: "char \<Rightarrow> bool" where
  "is_space ch = (let n = (of_char ch :: nat) in (9 \<le> n \<and> n \<le> 13) \<or> (28 \<le> n \<and> n \<le> 32))"

definition is_digit :: "char \<Rightarrow> bool" where
  "is_digit ch = (let n = (of_char ch :: nat) in 48 \<le> n \<and> n \<le> 57)"

text \<open>
  The constructs that the patterns of the source use: a literal text, one character of
  a class, \<open>r+\<close>, \<open>r*\<close>, a sequence, an alternative \<open>r|s\<close> and the word boundary
  \<open>\b\<close>.
\<close>

datatype rx =
    Lit string
  | Cls "char \<Rightarrow> bool"
  | Plus rx
  | Star rx
  | Seq rx rx
  | Alt rx rx
  | WordB

text \<open>
  A position in the text is the text before it, reversed, and the text from it on.
  \<open>\b\<close> holds where exactly one of the characters before and after the position is
  a word character.
\<close>

type_synonym pos = "string \<times> string"

fun match_lit :: "string \<Rightarrow> string \<Rightarrow> string option" where
  "match_lit [] rest = Some rest"
| "match_lit (x # xs) [] = None"
| "match_lit (x # xs) (c # cs) = (if x = c then match_lit xs cs else None)"

definition word_before :: "pos \<Rightarrow> bool" where
  "word_before p = (case fst p of [] \<Rightarrow> False | c # _ \<Rightarrow> is_word c)"

definition word_after :: "pos \<Rightarrow> bool" where
  "word_after p = (case snd p of [] \<Rightarrow> False | c # _ \<Rightarrow> is_word c)"

text \<open>
  \<open>rx_match r p\<close> lists the positions at which a match of \<open>r\<close> that starts at \<open>p\<close>
  can end, in the order in which Python's backtracking matcher tries them: the
  alternatives from left to right, a repetition with more rounds before fewer. A round
  of a repetition that consumes nothing is not repeated.
\<close>

function rx_match :: "rx \<Rightarrow> pos \<Rightarrow> pos list" where
  "rx_match (Lit s) p =
     (case match_lit s (snd p) of None \<Rightarrow> [] | Some rest \<Rightarrow> [(rev s @ fst p, rest)])"
| "rx_match (Cls cl) p =
     (case snd p of [] \<Rightarrow> [] | c # cs \<Rightarrow> if cl c then [(c # fst p, cs)] else [])"
| "rx_match WordB p = (if word_before p \<noteq> word_after p then [p] else [])"
| "rx_match (Seq a b) p = concat (map (rx_match b) (rx_match a p))"
| "rx_match (Alt a b) p = rx_match a p @ rx_match b p"
| "rx_match (Plus a) p =
     concat (map (\<lambda>q. (if length (snd q) < length (snd p) then rx_match (Plus a) q else []) @ [q])
       (rx_match a p))"
| "rx_match (Star a) p =
     concat (map (\<lambda>q. if length (snd q) < length (snd p) then rx_match (Star a) q else [q])
       (rx_match a p)) @ [p]"
  by pat_completeness auto
termination
  by (relation "measures [\<lambda>(r, p). size r, \<lambda>(r, p). length (snd p)]") auto

text \<open>\<open>re.match\<close>: the first of these positions, if there is one.\<close>

definition rx_first :: "rx \<Rightarrow> pos \<Rightarrow> pos option" where
  "rx_first r p = (case rx_match r p of [] \<Rightarrow> None | q # _ \<Rightarrow> Some q)"

fun rx_seq :: "rx list \<Rightarrow> rx" where
  "rx_seq [] = Lit []"
| "rx_seq [r] = r"
| "rx_seq (r # rs) = Seq r (rx_seq rs)"

fun rx_alt :: "rx list \<Rightarrow> rx" where
  "rx_alt [] = Lit []"
| "rx_alt [r] = r"
| "rx_alt (r # rs) = Alt r (rx_alt rs)"

subsection \<open>The library functions of the handlers\<close>

text \<open>\<open>s.replace(a, b)\<close> for single characters.\<close>

definition replace_char :: "char \<Rightarrow> char \<Rightarrow> string \<Rightarrow> string" where
  "replace_char a b s = map (\<lambda>ch. if ch = a then b else ch) s"

text \<open>\<open>s.split()\<close>: the words between runs of whitespace.\<close>

fun split_ws :: "string \<Rightarrow> string \<Rightarrow> string list" where
  "split_ws w [] = (if w = [] then [] else [rev w])"
| "split_ws w (c # cs) =
     (if is_space c then (if w = [] then split_ws [] cs else rev w # split_ws [] cs)
      else split_ws (c # w) cs)"

definition py_split :: "string \<Rightarrow> string list" where
  "py_split s = split_ws [] s"

text \<open>\<open>s.split(sep)\<close> for a single character: the pieces between the separators.\<close>

fun split_on :: "char \<Rightarrow> string \<Rightarrow> string list" where
  "split_on sep [] = [[]]"
| "split_on sep (c # cs) =
     (if c = sep then [] # split_on sep cs
      else (case split_on sep cs of [] \<Rightarrow> [[c]] | w # ws \<Rightarrow> (c # w) # ws))"

text \<open>\<open>xs[1]\<close>.\<close>

definition item1 :: "'a list \<Rightarrow> exn + 'a" where
  "item1 xs = (case xs of _ # y # _ \<Rightarrow> Inr y | _ \<Rightarrow> Inl IndexError)"

text \<open>\<open>t.value.replace('=', ' ').split()[1]\<close> and \<open>t.value.replace('=', ',').split(",")[1]\<close>.\<close>

definition value_word :: "string \<Rightarrow> exn + string" where
  "value_word v = item1 (py_split (replace_char (CHR ''='') (CHR '' '') v))"

definition value_after_comma :: "string \<Rightarrow> exn + string" where
  "value_after_comma v = item1 (split_on (CHR '','') (replace_char (CHR ''='') (CHR '','') v))"

text \<open>
  \<open>os.path.abspath\<close> on a POSIX system, with the working directory \<open>cwd\<close>:
  \<open>normpath\<close> of the path, joined to \<open>cwd\<close> when it is relative.
\<close>

definition norm_step :: "nat \<Rightarrow> string list \<Rightarrow> string \<Rightarrow> string list" where
  "norm_step initial_slashes new_comps cmp =
     (if cmp = [] \<or> cmp = ''.'' then new_comps
      else if cmp \<noteq> ''..'' \<or> (initial_slashes = 0 \<and> new_comps = [])
              \<or> (new_comps \<noteq> [] \<and> last new_comps = ''..'')
        then new_comps @ [cmp]
      else if new_comps \<noteq> [] then butlast new_comps
      else new_comps)"

fun join_slash :: "string list \<Rightarrow> string" where
  "join_slash [] = []"
| "join_slash [x] = x"
| "join_slash (x # y # ys) = x @ ''/'' @ join_slash (y # ys)"

definition normpath :: "string \<Rightarrow> string" where
  "normpath path =
     (if path = [] then ''.''
      else
        let initial_slashes =
              (if take 1 path = ''/''
               then (if take 2 path = ''//'' \<and> take 3 path \<noteq> ''///'' then 2 else 1)
               else (0::nat));
            comps = foldl (norm_step initial_slashes) [] (split_on (CHR ''/'') path);
            joined = replicate initial_slashes (CHR ''/'') @ join_slash comps
        in if joined = [] then ''.'' else joined)"

definition path_join :: "string \<Rightarrow> string \<Rightarrow> string" where
  "path_join a b =
     (if take 1 b = ''/'' then b
      else if a = [] \<or> last a = CHR ''/'' then a @ b
      else a @ ''/'' @ b)"

definition abspath :: "string \<Rightarrow> string \<Rightarrow> string" where
  "abspath cwd path = normpath (if take 1 path = ''/'' then path else path_join cwd path)"

text \<open>
  \<open>int\<close> of a text of digits, and \<open>float\<close> of a text of digits and dots: the float
  exists when the text has a digit and at most one dot, and is kept as that text.
\<close>

definition int_of_digits :: "string \<Rightarrow> nat" where
  "int_of_digits s = foldl (\<lambda>n ch. 10 * n + ((of_char ch :: nat) - 48)) 0 s"

definition py_float :: "string \<Rightarrow> exn + string" where
  "py_float s =
     (if list_ex is_digit s \<and> length (filter (\<lambda>ch. ch = CHR ''.'') s) \<le> 1 then Inr s
      else Inl ValueError)"

subsection \<open>The state of the lexer and the handlers\<close>

text \<open>
  The states of the PLY lexer (\<open>INITIAL\<close> and the three exclusive states), and the
  attributes of the lexer object that the handlers use; \<open>level\<close> is the attribute
  that the handlers of the blocks set.
\<close>

datatype lstate = INITIAL | MGA | MOO | MGPA

record lexer =
  lineno :: nat
  lexstate :: lstate
  lexstatestack :: "lstate list"
  level :: int

type_synonym lex_state = "config \<times> lexer"

type_synonym handler = "string \<Rightarrow> lex_state \<Rightarrow> exn + lex_state"

definition push_state :: "lstate \<Rightarrow> lexer \<Rightarrow> lexer" where
  "push_state st l = l\<lparr>lexstatestack := lexstatestack l @ [lexstate l], lexstate := st\<rparr>"

definition pop_state :: "lexer \<Rightarrow> exn + lexer" where
  "pop_state l =
     (if lexstatestack l = [] then Inl IndexError
      else Inr (l\<lparr>lexstate := last (lexstatestack l),
                  lexstatestack := butlast (lexstatestack l)\<rparr>))"

text \<open>A handler that only assigns attributes of the configuration.\<close>

definition assign :: "(config \<Rightarrow> config) \<Rightarrow> lex_state \<Rightarrow> exn + lex_state" where
  "assign f s = Inr (f (fst s), snd s)"

text \<open>A handler that assigns a value that may fail to be read.\<close>

definition assign_value :: "exn + 'a \<Rightarrow> ('a \<Rightarrow> config \<Rightarrow> config) \<Rightarrow> lex_state \<Rightarrow> exn + lex_state" where
  "assign_value r f s = (case r of Inl e \<Rightarrow> Inl e | Inr x \<Rightarrow> Inr (f x (fst s), snd s))"

definition word_then :: "string \<Rightarrow> (string \<Rightarrow> exn + 'a) \<Rightarrow> exn + 'a" where
  "word_then v g = (case value_word v of Inl e \<Rightarrow> Inl e | Inr w \<Rightarrow> g w)"

definition t_ANY_COMMENT :: handler where
  "t_ANY_COMMENT v s = Inr s"

definition t_dot_dat :: "string \<Rightarrow> handler" where
  "t_dot_dat cwd v = assign_value (value_word v) (\<lambda>w c. c\<lparr>dot_dat := dot_dat c @ [abspath cwd w]\<rparr>)"

definition t_output :: "string \<Rightarrow> handler" where
  "t_output cwd v = assign_value (value_word v) (\<lambda>w c. c\<lparr>output_file := Some (abspath cwd w)\<rparr>)"

definition t_scenario :: handler where
  "t_scenario v = assign_value (value_word v) (\<lambda>w c. c\<lparr>scenario := Some w\<rparr>)"

definition t_saveEXCEL :: handler where
  "t_saveEXCEL v = assign (\<lambda>c. c\<lparr>saveEXCEL := True\<rparr>)"

definition t_saveDUALS :: handler where
  "t_saveDUALS v = assign (\<lambda>c. c\<lparr>saveDUALS := True\<rparr>)"

definition t_myopic :: handler where
  "t_myopic v = assign (\<lambda>c. c\<lparr>myopic := True\<rparr>)"

definition t_myopic_periods :: handler where
  "t_myopic_periods v =
     assign_value (value_word v) (\<lambda>w c. c\<lparr>myopic_periods := int_of_digits w\<rparr>)"

definition t_keep_myopic_databases :: handler where
  "t_keep_myopic_databases v = assign (\<lambda>c. c\<lparr>KeepMyopicDBs := True\<rparr>)"

definition t_saveTEXTFILE :: handler where
  "t_saveTEXTFILE v = assign (\<lambda>c. c\<lparr>saveTEXTFILE := True\<rparr>)"

definition t_path_to_data :: "string \<Rightarrow> handler" where
  "t_path_to_data cwd v =
     assign_value (value_after_comma v) (\<lambda>w c. c\<lparr>path_to_data := abspath cwd w\<rparr>)"

definition t_path_to_logs :: "string \<Rightarrow> handler" where
  "t_path_to_logs cwd v =
     assign_value (value_after_comma v) (\<lambda>w c. c\<lparr>path_to_logs := abspath cwd w\<rparr>)"

definition t_how_to_cite :: handler where
  "t_how_to_cite v = assign (\<lambda>c. c\<lparr>how_to_cite := Some True\<rparr>)"

definition t_version :: handler where
  "t_version v = assign (\<lambda>c. c\<lparr>version := True\<rparr>)"

definition t_neos :: handler where
  "t_neos v = assign (\<lambda>c. c\<lparr>neos := True\<rparr>)"

definition t_solver :: handler where
  "t_solver v = assign_value (value_word v) (\<lambda>w c. c\<lparr>solver := Some w\<rparr>)"

definition t_method :: handler where
  "t_method v = assign_value (value_word v) (\<lambda>w c. c\<lparr>c_method := Some w\<rparr>)"

definition t_threads :: handler where
  "t_threads v = assign_value (value_word v) (\<lambda>w c. c\<lparr>threads := Some w\<rparr>)"

definition t_tee :: handler where
  "t_tee v = assign (\<lambda>c. c\<lparr>tee := True\<rparr>)"

definition t_keep_pyomo_lp_file :: handler where
  "t_keep_pyomo_lp_file v = assign (\<lambda>c. c\<lparr>keepPyomoLP := True\<rparr>)"

text \<open>The handlers that open a block (\<open>--mga {\<close> and so on) and the one that closes it.\<close>

definition t_begin :: "lstate \<Rightarrow> handler" where
  "t_begin st v s = Inr (fst s, (push_state st (snd s))\<lparr>level := 1\<rparr>)"

definition t_begin_mga :: handler where
  "t_begin_mga = t_begin MGA"

definition t_begin_moo :: handler where
  "t_begin_moo = t_begin MOO"

definition t_begin_mgpa :: handler where
  "t_begin_mgpa = t_begin MGPA"

definition t_end :: handler where
  "t_end v s =
     (case pop_state (snd s) of
        Inl e \<Rightarrow> Inl e
      | Inr l \<Rightarrow> Inr (fst s, l\<lparr>level := level l - 1\<rparr>))"

definition t_mga_end :: handler where
  "t_mga_end = t_end"

definition t_moo_end :: handler where
  "t_moo_end = t_end"

definition t_mgpa_end :: handler where
  "t_mgpa_end = t_end"

definition t_mga_mgaslack :: handler where
  "t_mga_mgaslack v = assign_value (word_then v py_float) (\<lambda>x c. c\<lparr>mga_slack := Some x\<rparr>)"

definition t_mga_mgaiter :: handler where
  "t_mga_mgaiter v =
     assign_value (value_word v) (\<lambda>w c. c\<lparr>mga_iter := Some (int_of_digits w)\<rparr>)"

definition t_mga_mgamethod :: handler where
  "t_mga_mgamethod v = assign_value (value_word v) (\<lambda>w c. c\<lparr>mga_method := Some w\<rparr>)"

definition t_moo_moof1 :: handler where
  "t_moo_moof1 v = assign_value (value_word v) (\<lambda>w c. c\<lparr>moo_f1 := Some w\<rparr>)"

definition t_moo_moof2 :: handler where
  "t_moo_moof2 v = assign_value (value_word v) (\<lambda>w c. c\<lparr>moo_f2 := Some w\<rparr>)"

definition t_moo_mooc :: handler where
  "t_moo_mooc v = assign_value (word_then v py_float) (\<lambda>x c. c\<lparr>moo_c := Some x\<rparr>)"

definition t_moo_mooncaps :: handler where
  "t_moo_mooncaps v =
     assign_value (value_word v) (\<lambda>w c. c\<lparr>moo_ncaps := Some (int_of_digits w)\<rparr>)"

definition t_mgpa_mgpaf1 :: handler where
  "t_mgpa_mgpaf1 v = assign_value (value_word v) (\<lambda>w c. c\<lparr>mgpa_f1 := Some w\<rparr>)"

definition t_mgpa_mgpaf2 :: handler where
  "t_mgpa_mgpaf2 v = assign_value (value_word v) (\<lambda>w c. c\<lparr>mgpa_f2 := Some w\<rparr>)"

definition t_mgpa_mgpac :: handler where
  "t_mgpa_mgpac v = assign_value (word_then v py_float) (\<lambda>x c. c\<lparr>mgpa_c := Some x\<rparr>)"

definition t_mgpa_mgpancaps :: handler where
  "t_mgpa_mgpancaps v =
     assign_value (value_word v) (\<lambda>w c. c\<lparr>mgpa_ncaps := Some (int_of_digits w)\<rparr>)"

definition t_mgpa_mgpaslack1 :: handler where
  "t_mgpa_mgpaslack1 v =
     assign_value (word_then v py_float) (\<lambda>x c. c\<lparr>mgpa_slack1 := Some x\<rparr>)"

definition t_mgpa_mgpaslack2 :: handler where
  "t_mgpa_mgpaslack2 v =
     assign_value (word_then v py_float) (\<lambda>x c. c\<lparr>mgpa_slack2 := Some x\<rparr>)"

definition t_mgpa_mgpaiter :: handler where
  "t_mgpa_mgpaiter v =
     assign_value (value_word v) (\<lambda>w c. c\<lparr>mgpa_iter := Some (int_of_digits w)\<rparr>)"

definition t_mgpa_mgpamethod :: handler where
  "t_mgpa_mgpamethod v = assign_value (value_word v) (\<lambda>w c. c\<lparr>mgpa_method := Some w\<rparr>)"

text \<open>\<open>t_ANY_newline\<close>: \<open>t.lexer.lineno += len(t.value)\<close>.\<close>

definition t_ANY_newline :: handler where
  "t_ANY_newline v s = Inr (fst s, (snd s)\<lparr>lineno := lineno (snd s) + length v\<rparr>)"

text \<open>
  \<open>t_ANY_error\<close>, with the line and the offset of the token and the first character
  of its value; the lexer then skips that character.
\<close>

definition new_error :: "nat \<Rightarrow> nat \<Rightarrow> char \<Rightarrow> err" where
  "new_error t_lineno t_lexpos ch =
     \<lparr>e_line = (t_lineno, t_lineno), e_index = (t_lexpos, t_lexpos), e_value = [ch]\<rparr>"

definition t_ANY_error :: "nat \<Rightarrow> nat \<Rightarrow> char \<Rightarrow> config \<Rightarrow> config" where
  "t_ANY_error t_lineno t_lexpos ch c =
     (if error c = [] then c\<lparr>error := error c @ [new_error t_lineno t_lexpos ch]\<rparr>
      else if int t_lexpos - int (snd (e_index (last (error c)))) = 1
        then c\<lparr>error := butlast (error c) @
               [(last (error c))\<lparr>e_line := (fst (e_line (last (error c))), t_lineno),
                                 e_index := (fst (e_index (last (error c))), t_lexpos),
                                 e_value := e_value (last (error c)) @ [ch]\<rparr>]\<rparr>
      else c\<lparr>error := error c @ [new_error t_lineno t_lexpos ch]\<rparr>)"

subsection \<open>The patterns\<close>

definition sep_char :: "char \<Rightarrow> bool" where
  "sep_char ch = (is_space ch \<or> ch = CHR ''='')"

definition path_char :: "char \<Rightarrow> bool" where
  "path_char ch =
     (ch = CHR ''-'' \<or> ch = CHR 0x5C \<or> ch = CHR ''/'' \<or> ch = CHR '':'' \<or> ch = CHR ''.''
      \<or> ch = CHR ''~'' \<or> is_word ch)"

definition path_space_char :: "char \<Rightarrow> bool" where
  "path_space_char ch = (path_char ch \<or> ch = CHR '' '')"

definition float_char :: "char \<Rightarrow> bool" where
  "float_char ch = (ch = CHR ''.'' \<or> is_digit ch)"

definition not_newline :: "char \<Rightarrow> bool" where
  "not_newline ch = (ch \<noteq> CHR 0x0A)"

text \<open>\<open>[\s\=]+\<close>, which follows the key of every directive that has a value.\<close>

definition seps :: rx where
  "seps = Plus (Cls sep_char)"

definition rx_COMMENT :: rx where
  "rx_COMMENT = Seq (Lit ''#'') (Star (Cls not_newline))"

definition rx_dot_dat :: rx where
  "rx_dot_dat =
     rx_seq [Lit ''--input'', seps, Plus (Cls path_char),
             rx_alt [Lit ''.dat'', Lit ''.db'', Lit ''.sqlite''], WordB]"

definition rx_output :: rx where
  "rx_output =
     rx_seq [Lit ''--output'', seps, Plus (Cls path_char),
             rx_alt [Lit ''.db'', Lit ''.sqlite''], WordB]"

definition key_word :: "string \<Rightarrow> rx" where
  "key_word k = rx_seq [Lit k, seps, Plus (Cls is_word), WordB]"

definition key_flag :: "string \<Rightarrow> rx" where
  "key_flag k = Seq (Lit k) WordB"

definition key_digits :: "string \<Rightarrow> rx" where
  "key_digits k = rx_seq [Lit k, seps, Plus (Cls is_digit)]"

definition key_float :: "string \<Rightarrow> rx" where
  "key_float k = rx_seq [Lit k, seps, Plus (Cls float_char)]"

definition key_path :: "string \<Rightarrow> rx" where
  "key_path k = rx_seq [Lit k, seps, Plus (Cls path_space_char), WordB]"

definition key_choice :: "string \<Rightarrow> string list \<Rightarrow> rx" where
  "key_choice k vs = rx_seq [Lit k, seps, rx_alt (map Lit vs), WordB]"

definition key_brace :: "string \<Rightarrow> rx" where
  "key_brace k = rx_seq [Lit k, seps, Lit ''{'']"

definition weightings :: "string list" where
  "weightings = [''integer'', ''normalized'', ''random'']"

definition objectives :: "string list" where
  "objectives = [''cost'', ''emissions'', ''energySR'', ''materialSR'']"

definition rx_newline :: rx where
  "rx_newline =
     rx_alt [Plus (Lit [CHR 0x0A]), Plus (Lit [CHR 0x0D, CHR 0x0A]), Plus (Lit [CHR 0x0D])]"

subsection \<open>The rules of each state and the token loop\<close>

text \<open>
  PLY tries the rules of the current state in the order in which the functions are
  defined; the rules named \<open>t_ANY_...\<close> belong to every state.
\<close>

type_synonym rule = "rx \<times> handler"

definition rules :: "string \<Rightarrow> lstate \<Rightarrow> rule list" where
  "rules cwd st =
     (case st of
        INITIAL \<Rightarrow>
          [(rx_COMMENT, t_ANY_COMMENT),
           (rx_dot_dat, t_dot_dat cwd),
           (rx_output, t_output cwd),
           (key_word ''--scenario'', t_scenario),
           (key_flag ''--saveEXCEL'', t_saveEXCEL),
           (key_flag ''--saveDUALS'', t_saveDUALS),
           (key_flag ''--myopic'', t_myopic),
           (key_digits ''--myopic_periods'', t_myopic_periods),
           (key_flag ''--keep_myopic_databases'', t_keep_myopic_databases),
           (key_flag ''--saveTEXTFILE'', t_saveTEXTFILE),
           (key_path ''--path_to_data'', t_path_to_data cwd),
           (key_path ''--path_to_logs'', t_path_to_logs cwd),
           (key_flag ''--how_to_cite'', t_how_to_cite),
           (key_flag ''--version'', t_version),
           (key_flag ''--neos'', t_neos),
           (key_word ''--solver'', t_solver),
           (key_word ''--method'', t_method),
           (key_word ''--threads'', t_threads),
           (key_flag ''--tee'', t_tee),
           (key_flag ''--keep_pyomo_lp_file'', t_keep_pyomo_lp_file),
           (key_brace ''--mga'', t_begin_mga),
           (key_brace ''--moo'', t_begin_moo),
           (key_brace ''--mgpa'', t_begin_mgpa),
           (rx_newline, t_ANY_newline)]
      | MGA \<Rightarrow>
          [(rx_COMMENT, t_ANY_COMMENT),
           (key_float ''slack'', t_mga_mgaslack),
           (key_digits ''iteration'', t_mga_mgaiter),
           (key_choice ''method'' weightings, t_mga_mgamethod),
           (Lit ''}'', t_mga_end),
           (rx_newline, t_ANY_newline)]
      | MOO \<Rightarrow>
          [(rx_COMMENT, t_ANY_COMMENT),
           (key_choice ''f1'' objectives, t_moo_moof1),
           (key_choice ''f2'' objectives, t_moo_moof2),
           (key_float ''c'', t_moo_mooc),
           (key_digits ''ncaps'', t_moo_mooncaps),
           (Lit ''}'', t_moo_end),
           (rx_newline, t_ANY_newline)]
      | MGPA \<Rightarrow>
          [(rx_COMMENT, t_ANY_COMMENT),
           (key_choice ''f1'' objectives, t_mgpa_mgpaf1),
           (key_choice ''f2'' objectives, t_mgpa_mgpaf2),
           (key_float ''c'', t_mgpa_mgpac),
           (key_digits ''ncaps'', t_mgpa_mgpancaps),
           (key_float ''slack1'', t_mgpa_mgpaslack1),
           (key_float ''slack2'', t_mgpa_mgpaslack2),
           (key_digits ''iteration'', t_mgpa_mgpaiter),
           (key_choice ''method'' weightings, t_mgpa_mgpamethod),
           (Lit ''}'', t_mgpa_end),
           (rx_newline, t_ANY_newline)])"

text \<open>The first rule that matches at a position, with the end of its match.\<close>

fun first_rule :: "rule list \<Rightarrow> pos \<Rightarrow> (handler \<times> pos) option" where
  "first_rule [] p = None"
| "first_rule ((r, h) # rs) p =
     (case rx_first r p of None \<Rightarrow> first_rule rs p | Some q \<Rightarrow> Some (h, q))"

text \<open>\<open>t_ANY_ignore = '[ \t]'\<close>: PLY skips every character of this string.\<close>

definition lexignore :: string where
  "lexignore = [CHR ''['', CHR '' '', CHR 0x09, CHR '']'']"

text \<open>The text of a match that starts at \<open>p\<close> and ends at \<open>q\<close>.\<close>

definition matched :: "pos \<Rightarrow> pos \<Rightarrow> string" where
  "matched p q = rev (take (length (fst q) - length (fst p)) (fst q))"

text \<open>
  The loop of \<open>lexer.token()\<close>. No handler returns a token, so the first call of
  \<open>token\<close> goes through the whole text, and \<open>build\<close> stops at the end of the input.
  PLY refuses, when the lexer is built, a pattern that matches the empty text; the
  loop reports a match that consumes nothing as \<open>ValueError\<close>.
\<close>

function lex_loop :: "string \<Rightarrow> string \<Rightarrow> string \<Rightarrow> lex_state \<Rightarrow> exn + lex_state" where
  "lex_loop cwd bef [] s = Inr s"
| "lex_loop cwd bef (ch # rest) s =
     (if ch \<in> set lexignore then lex_loop cwd (ch # bef) rest s
      else case first_rule (rules cwd (lexstate (snd s))) (bef, ch # rest) of
        None \<Rightarrow>
          lex_loop cwd (ch # bef) rest (t_ANY_error (lineno (snd s)) (length bef) ch (fst s), snd s)
      | Some (h, q) \<Rightarrow>
          if length (snd q) < length (ch # rest)
          then (case h (matched (bef, ch # rest) q) s of
                  Inl e \<Rightarrow> Inl e
                | Inr s' \<Rightarrow> lex_loop cwd (fst q) (snd q) s')
          else Inl ValueError)"
  by pat_completeness auto
termination
  by (relation "measure (\<lambda>(cwd, bef, rest, s). length rest)") auto

text \<open>Lexing a text with a fresh lexer, whose line counter starts at 1.\<close>

definition new_lexer :: lexer where
  "new_lexer = \<lparr>lineno = 1, lexstate = INITIAL, lexstatestack = [], level = 0\<rparr>"

definition lex :: "string \<Rightarrow> string \<Rightarrow> config \<Rightarrow> exn + lex_state" where
  "lex cwd text c = lex_loop cwd [] text (c, new_lexer)"

subsection \<open>What the properties of the lexer speak of\<close>

text \<open>A run of the error handler over characters at consecutive offsets of one line.\<close>

fun error_run :: "nat \<Rightarrow> nat \<Rightarrow> string \<Rightarrow> config \<Rightarrow> config" where
  "error_run t_lineno t_lexpos [] c = c"
| "error_run t_lineno t_lexpos (ch # chs) c =
     error_run t_lineno (Suc t_lexpos) chs (t_ANY_error t_lineno t_lexpos ch c)"

text \<open>
  Error spans in the order of the text with a gap of more than one offset between
  the end of a span and the start of the next one.
\<close>

fun separated :: "err list \<Rightarrow> bool" where
  "separated [] = True"
| "separated [e] = True"
| "separated (e # e' # es) = (snd (e_index e) + 1 < fst (e_index e') \<and> separated (e' # es))"

text \<open>
  A span that lies before the offset \<open>n\<close> of the text and whose value is the text
  between its two offsets, both included.
\<close>

definition span_of :: "string \<Rightarrow> nat \<Rightarrow> err \<Rightarrow> bool" where
  "span_of text n e =
     (fst (e_index e) \<le> snd (e_index e) \<and> snd (e_index e) < n
      \<and> e_value e = take (snd (e_index e) - fst (e_index e) + 1) (drop (fst (e_index e)) text)
      \<and> fst (e_line e) \<le> snd (e_line e))"

definition ends_with :: "string \<Rightarrow> string \<Rightarrow> bool" where
  "ends_with suffix s = (length suffix \<le> length s \<and> drop (length s - length suffix) s = suffix)"





section \<open>Properties of the sweep queues\<close>

lemma repeat_next_exhausted:
  assumes "f c = (False, c)"
  shows "repeat_next f n c = (replicate n False, c)"
  using assms by (induction n) simp_all

text \<open>
  C1. For each of the three techniques: when the pending queue is not empty, the
  method returns true, appends the current scenario to the technique's done queue and
  moves the front pending name into \<open>scenario\<close>, leaving the other techniques'
  queues alone; when it is empty, the method returns false and the object is unchanged,
  and so is it after any number of further calls, which all return false.
\<close>

theorem next_contract:
  "(mga_todo c = x # rest \<longrightarrow>
      fst (next_mga c) = True \<and> scenario (snd (next_mga c)) = Some x
      \<and> mga_todo (snd (next_mga c)) = rest
      \<and> mga_done (snd (next_mga c)) = mga_done c @ [scenario c]
      \<and> moo_todo (snd (next_mga c)) = moo_todo c \<and> moo_done (snd (next_mga c)) = moo_done c
      \<and> mgpa_todo (snd (next_mga c)) = mgpa_todo c \<and> mgpa_done (snd (next_mga c)) = mgpa_done c)
   \<and> (mga_todo c = [] \<longrightarrow>
      next_mga c = (False, c) \<and> repeat_next next_mga n c = (replicate n False, c))
   \<and> (moo_todo c = x # rest \<longrightarrow>
      fst (next_moo c) = True \<and> scenario (snd (next_moo c)) = Some x
      \<and> moo_todo (snd (next_moo c)) = rest
      \<and> moo_done (snd (next_moo c)) = moo_done c @ [scenario c]
      \<and> mga_todo (snd (next_moo c)) = mga_todo c \<and> mga_done (snd (next_moo c)) = mga_done c
      \<and> mgpa_todo (snd (next_moo c)) = mgpa_todo c \<and> mgpa_done (snd (next_moo c)) = mgpa_done c)
   \<and> (moo_todo c = [] \<longrightarrow>
      next_moo c = (False, c) \<and> repeat_next next_moo n c = (replicate n False, c))
   \<and> (mgpa_todo c = x # rest \<longrightarrow>
      fst (next_mgpa c) = True \<and> scenario (snd (next_mgpa c)) = Some x
      \<and> mgpa_todo (snd (next_mgpa c)) = rest
      \<and> mgpa_done (snd (next_mgpa c)) = mgpa_done c @ [scenario c]
      \<and> mga_todo (snd (next_mgpa c)) = mga_todo c \<and> mga_done (snd (next_mgpa c)) = mga_done c
      \<and> moo_todo (snd (next_mgpa c)) = moo_todo c \<and> moo_done (snd (next_mgpa c)) = moo_done c)
   \<and> (mgpa_todo c = [] \<longrightarrow>
      next_mgpa c = (False, c) \<and> repeat_next next_mgpa n c = (replicate n False, c))"
proof -
  have mga: "mga_todo c = [] \<Longrightarrow> repeat_next next_mga n c = (replicate n False, c)"
    by (rule repeat_next_exhausted) simp
  have moo: "moo_todo c = [] \<Longrightarrow> repeat_next next_moo n c = (replicate n False, c)"
    by (rule repeat_next_exhausted) simp
  have mgpa: "mgpa_todo c = [] \<Longrightarrow> repeat_next next_mgpa n c = (replicate n False, c)"
    by (rule repeat_next_exhausted) simp
  show ?thesis
    using mga moo mgpa by simp
qed

theorem next_contract_witness:
  "mga_todo (init_config ''/t/temoa_model'' None
      \<lparr>scenario := Some ''s'', mga_todo := [''s_mga_0'', ''s_mga_1'']\<rparr>) = ''s_mga_0'' # [''s_mga_1'']
   \<and> mgpa_todo (init_config ''/t/temoa_model'' None
      \<lparr>scenario := Some ''s'', mga_todo := [''s_mga_0'', ''s_mga_1'']\<rparr>) = []
   \<and> fst (next_mga (init_config ''/t/temoa_model'' None
      \<lparr>scenario := Some ''s'', mga_todo := [''s_mga_0'', ''s_mga_1'']\<rparr>)) = True
   \<and> scenario (snd (next_mga (init_config ''/t/temoa_model'' None
      \<lparr>scenario := Some ''s'', mga_todo := [''s_mga_0'', ''s_mga_1'']\<rparr>))) = Some ''s_mga_0''
   \<and> mga_done (snd (next_mga (init_config ''/t/temoa_model'' None
      \<lparr>scenario := Some ''s'', mga_todo := [''s_mga_0'', ''s_mga_1'']\<rparr>))) = [Some ''s'']
   \<and> repeat_next next_mgpa 3 (init_config ''/t/temoa_model'' None
      \<lparr>scenario := Some ''s'', mga_todo := [''s_mga_0'', ''s_mga_1'']\<rparr>)
     = ([False, False, False], init_config ''/t/temoa_model'' None
      \<lparr>scenario := Some ''s'', mga_todo := [''s_mga_0'', ''s_mga_1'']\<rparr>)"
  using next_contract [of "init_config ''/t/temoa_model'' None
      \<lparr>scenario := Some ''s'', mga_todo := [''s_mga_0'', ''s_mga_1'']\<rparr>"
      "''s_mga_0''" "[''s_mga_1'']" 3]
  by (simp add: init_config_def numeral_3_eq_3)

section \<open>Properties of the queue construction\<close>







section \<open>Properties of the validation\<close>

lemma splitext_no_sqlitedb: "snd (splitext p) \<noteq> ''sqlitedb''"
proof (cases "rfind (CHR ''.'') p > rfind (CHR ''/'') p
    \<and> list_ex (\<lambda>k. p ! k \<noteq> CHR ''.'') [nat (rfind (CHR ''/'') p + 1)..<nat (rfind (CHR ''.'') p)]")
  case False
  then show ?thesis by (auto simp: splitext_def Let_def)
next
  case True
  obtain k ks where k: "filter (\<lambda>k. p ! k = CHR ''.'') (rev [0..<length p]) = k # ks"
    using True by (cases "filter (\<lambda>k. p ! k = CHR ''.'') (rev [0..<length p])")
      (auto simp: rfind_def split: list.splits)
  then have "k \<in> set (filter (\<lambda>k. p ! k = CHR ''.'') (rev [0..<length p]))"
    by simp
  then have "k < length p" "p ! k = CHR ''.''"
    by auto
  then have "hd (drop k p) = CHR ''.''"
    by (simp add: hd_drop_conv_nth)
  moreover have "snd (splitext p) = drop k p"
    using True k by (simp add: splitext_def Let_def rfind_def)
  ultimately show ?thesis by auto
qed

lemma mode_loop_last:
  "\<forall>f\<in>set fs. isfile f \<Longrightarrow>
   mode_loop isfile fs b = Inr (case last_class fs of None \<Rightarrow> b | Some m \<Rightarrow> m)"
proof (induction fs arbitrary: b)
  case Nil
  then show ?case by (simp add: last_class_def)
next
  case (Cons f fs)
  have rest: "mode_loop isfile fs b' = Inr (case last_class fs of None \<Rightarrow> b' | Some m \<Rightarrow> m)" for b'
    using Cons by simp
  have step: "last_class (f # fs) = (case last_class fs of None \<Rightarrow> spec_class f | Some m \<Rightarrow> Some m)"
  proof (cases "filter (\<lambda>f. spec_class f \<noteq> None) fs")
    case Nil
    then show ?thesis by (cases "spec_class f") (auto simp: last_class_def)
  next
    case (Cons r rs)
    have "last (r # rs) \<in> set (r # rs)"
      by (rule last_in_set) simp
    then have "last (r # rs) \<in> set (filter (\<lambda>f. spec_class f \<noteq> None) fs)"
      by (simp only: Cons)
    then have "spec_class (last (r # rs)) \<noteq> None"
      by simp
    with Cons show ?thesis by (cases "spec_class f") (auto simp: last_class_def)
  qed
  show ?case
    using Cons.prems splitext_no_sqlitedb [of f]
    by (auto simp: rest step spec_class_def Let_def split: option.splits)
qed

text \<open>
  C5. For a non-empty list of input files that all exist, the mode that the
  validator computes is the classification of the last file of the list that has a
  recognised extension (flat for \<open>.dat\<close> and \<open>.txt\<close>, relational for \<open>.db\<close>,
  \<open>.sqlite\<close> and \<open>.sqlite3\<close>), whatever the files before it are; when no file has
  one, the flag keeps its initial value, relational.
\<close>

theorem input_mode_last_wins:
  assumes "dot_dat c \<noteq> []" and "\<forall>f\<in>set (dot_dat c). isfile f"
  shows "input_mode isfile c = Inr (case last_class (dot_dat c) of None \<Rightarrow> True | Some m \<Rightarrow> m)"
  using assms by (simp add: input_mode_def mode_loop_last)

lemma splitext_examples:
  "splitext ''/w/a.db'' = (''/w/a'', ''.db'')"
  "splitext ''/w/b.dat'' = (''/w/b'', ''.dat'')"
  by (simp_all add: splitext_def rfind_def upt_rec Let_def)

theorem input_mode_last_wins_witness:
  "input_mode (\<lambda>f. True) (init_config ''/t/temoa_model'' None \<lparr>dot_dat := [''/w/a.db'', ''/w/b.dat'']\<rparr>)
     = Inr False
   \<and> input_mode (\<lambda>f. True) (init_config ''/t/temoa_model'' None \<lparr>dot_dat := [''/w/b.dat'', ''/w/a.db'']\<rparr>)
     = Inr True"
proof -
  have cls: "spec_class ''/w/a.db'' = Some True" "spec_class ''/w/b.dat'' = Some False"
    by (simp_all add: spec_class_def splitext_examples)
  have last: "last_class [''/w/a.db'', ''/w/b.dat''] = Some False"
    "last_class [''/w/b.dat'', ''/w/a.db''] = Some True"
    by (simp_all add: last_class_def cls del: not_None_eq)
  have "input_mode (\<lambda>f. True) (init_config ''/t/temoa_model'' None \<lparr>dot_dat := [''/w/a.db'', ''/w/b.dat'']\<rparr>)
     = Inr False"
    using input_mode_last_wins [of "init_config ''/t/temoa_model'' None \<lparr>dot_dat := [''/w/a.db'', ''/w/b.dat'']\<rparr>" "\<lambda>f. True"]
    by (simp add: last)
  moreover have "input_mode (\<lambda>f. True) (init_config ''/t/temoa_model'' None \<lparr>dot_dat := [''/w/b.dat'', ''/w/a.db'']\<rparr>)
     = Inr True"
    using input_mode_last_wins [of "init_config ''/t/temoa_model'' None \<lparr>dot_dat := [''/w/b.dat'', ''/w/a.db'']\<rparr>" "\<lambda>f. True"]
    by (simp add: last)
  ultimately show ?thesis by simp
qed

text \<open>
  C4. When the computed mode is relational, the validation fails exactly when the
  output file is unset, or is not a file on disk, or the scenario name is unset, with
  the exception of the first of these checks that fails; when the computed mode is
  flat text, the validation succeeds whatever the output file and the scenario name
  are.
\<close>

theorem validate_by_mode:
  "(input_mode isfile c = Inr True \<longrightarrow>
      (\<not> str_truthy (output_file c) \<longrightarrow> validate isfile c = Inl OutputNotSpecified)
    \<and> (\<forall>p. output_file c = Some p \<and> p \<noteq> [] \<and> \<not> isfile p \<longrightarrow>
          validate isfile c = Inl (CannotLocateOutput p))
    \<and> (\<forall>p. output_file c = Some p \<and> p \<noteq> [] \<and> isfile p \<and> \<not> str_truthy (scenario c) \<longrightarrow>
          validate isfile c = Inl ScenarioNotSpecified)
    \<and> (isl (validate isfile c) \<longleftrightarrow>
          \<not> str_truthy (output_file c) \<or> \<not> isfile (the (output_file c))
          \<or> \<not> str_truthy (scenario c)))
   \<and> (input_mode isfile c = Inr False \<longrightarrow>
        validate isfile c = Inr False
      \<and> (\<forall>out scen. validate isfile (c\<lparr>output_file := out, scenario := scen\<rparr>) = Inr False))"
  by (auto simp: validate_def check_output_def str_truthy_def input_mode_def
      split: option.splits)


theorem validate_by_mode_witness:
  "input_mode (\<lambda>f. f = ''/w/a.db'')
      (init_config ''/t/temoa_model'' None \<lparr>dot_dat := [''/w/a.db'']\<rparr>) = Inr True
   \<and> validate (\<lambda>f. f = ''/w/a.db'')
      (init_config ''/t/temoa_model'' None \<lparr>dot_dat := [''/w/a.db'']\<rparr>) = Inl OutputNotSpecified
   \<and> input_mode (\<lambda>f. f = ''/w/b.dat'')
      (init_config ''/t/temoa_model'' None \<lparr>dot_dat := [''/w/b.dat'']\<rparr>) = Inr False
   \<and> validate (\<lambda>f. f = ''/w/b.dat'')
      (init_config ''/t/temoa_model'' None
         \<lparr>dot_dat := [''/w/b.dat''], output_file := Some ''/w/missing.db'', scenario := None\<rparr>)
      = Inr False"
proof -
  let ?a = "init_config ''/t/temoa_model'' None \<lparr>dot_dat := [''/w/a.db'']\<rparr>"
  let ?b = "init_config ''/t/temoa_model'' None \<lparr>dot_dat := [''/w/b.dat'']\<rparr>"
  have a: "input_mode (\<lambda>f. f = ''/w/a.db'') ?a = Inr True"
    by (simp add: input_mode_def init_config_def splitext_examples)
  have b: "input_mode (\<lambda>f. f = ''/w/b.dat'') ?b = Inr False"
    by (simp add: input_mode_def init_config_def splitext_examples)
  have "validate (\<lambda>f. f = ''/w/a.db'') ?a = Inl OutputNotSpecified"
    using validate_by_mode [of "\<lambda>f. f = ''/w/a.db''" ?a] a
    by (simp add: str_truthy_def init_config_def)
  moreover have "validate (\<lambda>f. f = ''/w/b.dat'')
      (?b\<lparr>output_file := Some ''/w/missing.db'', scenario := None\<rparr>) = Inr False"
    using validate_by_mode [of "\<lambda>f. f = ''/w/b.dat''" ?b] b
    by blast
  ultimately show ?thesis
    using a b by simp
qed

section \<open>Properties of the exporter\<close>

lemma export_tables_append:
  "export_tables (xs @ ys) db f =
     (case export_tables xs db f of Inl e \<Rightarrow> Inl e | Inr f' \<Rightarrow> export_tables ys db f')"
  by (induction xs arbitrary: f) (auto split: sum.splits)

text \<open>
  C6. When the table of an entry exists and the query of the entry returns no row,
  \<open>query_table\<close> returns without an error and leaves the text of the file as it is,
  and the loop over a list of entries gives the same result as the loop over the list
  without that entry.
\<close>

theorem empty_query_skipped:
  assumes "db (t_name t) \<noteq> None" and "db_query t db = Inr []"
  shows "query_table t db f = Inr f
    \<and> export_tables (pre @ t # post) db f = export_tables (pre @ post) db f"
proof -
  have skip: "query_table t db g = Inr g" for g
    using assms by (simp add: query_table_def)
  have step: "export_tables (t # post) db g = export_tables post db g" for g
    using assms skip by simp
  have "export_tables (pre @ t # post) db f = export_tables (pre @ post) db f"
    by (simp only: export_tables_append step)
  then show ?thesis
    using skip by simp
qed

theorem empty_query_skipped_witness:
  "query_table (tspec ''set'' ''technologies'' ''tech_resource'' (Flag ''r'') 0)
     [''technologies'' \<mapsto> \<lparr>cols = [''tech'', ''flag''], rows = [[VText ''E01'', VText ''p'']]\<rparr>]
     (''data ;'' @ nl @ nl) = Inr (''data ;'' @ nl @ nl)
   \<and> export_tables
       [tspec ''set'' ''technologies'' ''tech_resource'' (Flag ''r'') 0,
        tspec ''set'' ''technologies'' ''tech_production'' (FlagList [''p'', ''pb'', ''ps'']) 0]
       [''technologies'' \<mapsto> \<lparr>cols = [''tech'', ''flag''], rows = [[VText ''E01'', VText ''p'']]\<rparr>]
       (''data ;'' @ nl @ nl)
     = Inr (''data ;'' @ nl @ nl @ ''set tech_production := '' @ nl @ ''E01'' @ nl @ '';'' @ nl @ nl)"
proof -
  let ?db = "[''technologies'' \<mapsto> \<lparr>cols = [''tech'', ''flag''], rows = [[VText ''E01'', VText ''p'']]\<rparr>]"
  let ?t = "tspec ''set'' ''technologies'' ''tech_resource'' (Flag ''r'') 0"
  have ex: "?db (t_name ?t) \<noteq> None"
    by simp
  have q: "db_query ?t ?db = Inr []"
    by (simp add: db_query_def select_where_def cell_def sql_literal_ok_def)
  have rest: "export_tables
       [tspec ''set'' ''technologies'' ''tech_production'' (FlagList [''p'', ''pb'', ''ps'']) 0]
       ?db (''data ;'' @ nl @ nl)
     = Inr (''data ;'' @ nl @ nl @ ''set tech_production := '' @ nl @ ''E01'' @ nl @ '';'' @ nl @ nl)"
    by (simp add: query_table_def db_query_def select_where_def cell_def sql_literal_ok_def
        section_header_def section_name_def first_field_row_def)
  from empty_query_skipped [OF ex q, of "''data ;'' @ nl @ nl" "[]"
      "[tspec ''set'' ''technologies'' ''tech_production'' (FlagList [''p'', ''pb'', ''ps'']) 0]"]
  show ?thesis
    using rest by simp
qed











section \<open>Properties of the lexer\<close>

subsection \<open>Matches\<close>

declare rx_match.simps(6) [simp del]

declare rx_match.simps(7) [simp del]

lemma match_lit_Some: "match_lit s rest = Some r \<longleftrightarrow> rest = s @ r"
  by (induction s rest rule: match_lit.induct) auto

lemma in_Lit:
  "q \<in> set (rx_match (Lit s) p) \<longleftrightarrow> (snd p = s @ snd q \<and> fst q = rev s @ fst p)"
proof (cases "match_lit s (snd p)")
  case None
  then have "snd p \<noteq> s @ snd q"
    using match_lit_Some [of s "snd p" "snd q"] by simp
  with None show ?thesis by simp
next
  case (Some r)
  then have "snd p = s @ r"
    by (simp add: match_lit_Some)
  with Some show ?thesis by (cases q) auto
qed





lemma rx_match_text:
  "q \<in> set (rx_match r p) \<Longrightarrow>
   rev (fst q) @ snd q = rev (fst p) @ snd p \<and> length (snd q) \<le> length (snd p)"
proof (induction r p arbitrary: q rule: rx_match.induct)
  case (1 s p)
  from "1.prems" [unfolded in_Lit] show ?case by auto
next
  case (2 cl p)
  then show ?case by (cases "snd p") (auto split: if_splits)
next
  case (3 p)
  then show ?case by (auto split: if_splits)
next
  case (4 a b p)
  from "4.prems" obtain m where m: "m \<in> set (rx_match a p)" "q \<in> set (rx_match b m)"
    by auto
  from "4.IH"(1) [OF m(1)] "4.IH"(2) [OF m(1) m(2)] show ?case
    by auto
next
  case (5 a b p)
  from "5.prems" have "q \<in> set (rx_match a p) \<or> q \<in> set (rx_match b p)"
    by simp
  then show ?case
    using "5.IH" by blast
next
  case (6 a p)
  from "6.prems" obtain m where m: "m \<in> set (rx_match a p)"
    and q: "q = m \<or> (length (snd m) < length (snd p) \<and> q \<in> set (rx_match (Plus a) m))"
    unfolding rx_match.simps(6) [of a p] by (auto split: if_splits)
  from q show ?case
  proof
    assume "q = m"
    with "6.IH"(1) [OF m] show ?thesis by simp
  next
    assume r: "length (snd m) < length (snd p) \<and> q \<in> set (rx_match (Plus a) m)"
    with "6.IH"(2) [OF m, of q] "6.IH"(1) [OF m] show ?thesis by simp
  qed
next
  case (7 a p)
  from "7.prems" have "q = p \<or> (\<exists>m\<in>set (rx_match a p).
      q = m \<or> (length (snd m) < length (snd p) \<and> q \<in> set (rx_match (Star a) m)))"
    unfolding rx_match.simps(7) [of a p] by (auto split: if_splits)
  then show ?case
  proof (elim disjE bexE conjE)
    assume "q = p"
    then show ?thesis by simp
  next
    fix m assume "m \<in> set (rx_match a p)" "q = m"
    with "7.IH"(1) [of m] show ?thesis by simp
  next
    fix m assume m: "m \<in> set (rx_match a p)" "length (snd m) < length (snd p)"
      "q \<in> set (rx_match (Star a) m)"
    with "7.IH"(1) [OF m(1)] "7.IH"(2) [OF m(1) m(2) m(3)] show ?thesis by simp
  qed
qed

lemma rx_first_in: "rx_first r p = Some q \<Longrightarrow> q \<in> set (rx_match r p)"
  by (auto simp: rx_first_def split: list.splits)

lemma first_rule_in:
  "first_rule rs p = Some (h, q) \<Longrightarrow> \<exists>r. (r, h) \<in> set rs \<and> q \<in> set (rx_match r p)"
  by (induction rs p rule: first_rule.induct) (auto split: option.splits dest: rx_first_in)


subsection \<open>What the handlers leave alone\<close>

lemma handler_frame:
  assumes "(r, h) \<in> set (rules cwd st)" and "h v s = Inr s'"
  shows "error (fst s') = error (fst s) \<and> lineno (snd s) \<le> lineno (snd s')
    \<and> (dot_dat (fst s') = dot_dat (fst s)
       \<or> (r = rx_dot_dat \<and> (\<exists>w. value_word v = Inr w
            \<and> dot_dat (fst s') = dot_dat (fst s) @ [abspath cwd w])))"
proof (cases st)
  case INITIAL
  with assms show ?thesis
    by (auto simp: rules_def assign_def assign_value_def t_begin_def push_state_def
        t_ANY_COMMENT_def t_dot_dat_def t_output_def t_scenario_def t_saveEXCEL_def
        t_saveDUALS_def t_myopic_def t_myopic_periods_def t_keep_myopic_databases_def
        t_saveTEXTFILE_def t_path_to_data_def t_path_to_logs_def t_how_to_cite_def
        t_version_def t_neos_def t_solver_def t_method_def t_threads_def t_tee_def
        t_keep_pyomo_lp_file_def t_begin_mga_def t_begin_moo_def t_begin_mgpa_def
        t_ANY_newline_def split: sum.splits)
next
  case MGA
  with assms show ?thesis
    by (auto simp: rules_def assign_def assign_value_def t_end_def pop_state_def
        t_ANY_COMMENT_def t_mga_mgaslack_def t_mga_mgaiter_def t_mga_mgamethod_def
        t_mga_end_def t_ANY_newline_def split: sum.splits if_splits)
next
  case MOO
  with assms show ?thesis
    by (auto simp: rules_def assign_def assign_value_def t_end_def pop_state_def
        t_ANY_COMMENT_def t_moo_moof1_def t_moo_moof2_def t_moo_mooc_def t_moo_mooncaps_def
        t_moo_end_def t_ANY_newline_def split: sum.splits if_splits)
next
  case MGPA
  with assms show ?thesis
    by (auto simp: rules_def assign_def assign_value_def t_end_def pop_state_def
        t_ANY_COMMENT_def t_mgpa_mgpaf1_def t_mgpa_mgpaf2_def t_mgpa_mgpac_def
        t_mgpa_mgpancaps_def t_mgpa_mgpaslack1_def t_mgpa_mgpaslack2_def t_mgpa_mgpaiter_def
        t_mgpa_mgpamethod_def t_mgpa_end_def t_ANY_newline_def split: sum.splits if_splits)
qed


subsection \<open>The list of error spans\<close>

lemma separated_snoc:
  "separated (es @ [e]) \<longleftrightarrow>
     separated es \<and> (es = [] \<or> snd (e_index (last es)) + 1 < fst (e_index e))"
  by (induction es rule: separated.induct) auto

lemma separated_replace_last:
  assumes "es \<noteq> []" and "separated es" and "fst (e_index e') = fst (e_index (last es))"
  shows "separated (butlast es @ [e'])"
proof -
  have "separated (butlast es @ [last es])"
    using assms(1,2) by simp
  then show ?thesis
    using assms(3) by (simp only: separated_snoc)
qed

lemma span_of_mono: "span_of text n e \<Longrightarrow> n \<le> m \<Longrightarrow> span_of text m e"
  by (auto simp: span_of_def)

lemma span_of_new:
  assumes "n < length text"
  shows "span_of text (Suc n) (new_error ln n (text ! n))"
  using assms by (simp add: span_of_def new_error_def take_Suc_conv_app_nth)

lemma span_of_extend:
  assumes "span_of text n e" and "n = snd (e_index e) + 1" and "n < length text"
    and "fst (e_line e) \<le> ln"
  shows "span_of text (Suc n)
     (e\<lparr>e_line := (fst (e_line e), ln), e_index := (fst (e_index e), n),
        e_value := e_value e @ [text ! n]\<rparr>)"
proof -
  let ?a = "fst (e_index e)"
  have a: "?a \<le> snd (e_index e)"
    and v: "e_value e = take (snd (e_index e) - ?a + 1) (drop ?a text)"
    using assms(1) by (simp_all add: span_of_def)
  have k: "n - ?a + 1 = Suc (snd (e_index e) - ?a + 1)" "snd (e_index e) - ?a + 1 = n - ?a"
    using a assms(2) by simp_all
  have "take (n - ?a + 1) (drop ?a text) = take (n - ?a) (drop ?a text) @ [drop ?a text ! (n - ?a)]"
    using assms(2,3) a by (simp add: take_Suc_conv_app_nth)
  moreover have "drop ?a text ! (n - ?a) = text ! n"
    using assms(2,3) a by simp
  ultimately have "take (n - ?a + 1) (drop ?a text) = e_value e @ [text ! n]"
    using v k by simp
  then show ?thesis
    using assms a by (simp add: span_of_def)
qed

lemma t_ANY_error_spans:
  assumes "\<forall>e\<in>set (error c). span_of text n e \<and> snd (e_line e) \<le> ln"
    and "separated (error c)" and "n < length text"
  shows "(\<forall>e\<in>set (error (t_ANY_error ln n (text ! n) c)). span_of text (Suc n) e \<and> snd (e_line e) \<le> ln)
    \<and> separated (error (t_ANY_error ln n (text ! n) c))"
proof (cases "error c = []")
  case True
  then show ?thesis
    using span_of_new [OF assms(3), of ln]
    by (simp add: t_ANY_error_def) (simp add: new_error_def)
next
  case False
  let ?l = "last (error c)"
  have l: "span_of text n ?l" "snd (e_line ?l) \<le> ln"
    using assms(1) False by simp_all
  have old: "\<forall>e\<in>set (error c). span_of text (Suc n) e \<and> snd (e_line e) \<le> ln"
    using assms(1) span_of_mono [of "text" n _ "Suc n"] by auto
  show ?thesis
  proof (cases "int n - int (snd (e_index ?l)) = 1")
    case True
    then have n: "n = snd (e_index ?l) + 1"
      by simp
    let ?e = "?l\<lparr>e_line := (fst (e_line ?l), ln), e_index := (fst (e_index ?l), n),
        e_value := e_value ?l @ [text ! n]\<rparr>"
    have "fst (e_line ?l) \<le> ln"
      using l by (simp add: span_of_def)
    then have e: "span_of text (Suc n) ?e"
      using span_of_extend [OF l(1) n assms(3)] by simp
    have sep: "separated (butlast (error c) @ [?e])"
      using False assms(2) by (rule separated_replace_last) simp
    have "set (butlast (error c)) \<subseteq> set (error c)"
      by (auto dest: in_set_butlastD)
    then have but: "\<forall>e\<in>set (butlast (error c)). span_of text (Suc n) e \<and> snd (e_line e) \<le> ln"
      using old by blast
    have eq: "error (t_ANY_error ln n (text ! n) c) = butlast (error c) @ [?e]"
      using False True by (simp add: t_ANY_error_def)
    show ?thesis
      unfolding eq using e sep but by simp
  next
    case no: False
    have "snd (e_index ?l) < n"
      using l(1) by (simp add: span_of_def)
    with no have gap: "snd (e_index ?l) + 1 < fst (e_index (new_error ln n (text ! n)))"
      by (simp add: new_error_def)
    have eq: "error (t_ANY_error ln n (text ! n) c) = error c @ [new_error ln n (text ! n)]"
      using False no by (simp add: t_ANY_error_def)
    have new: "span_of text (Suc n) (new_error ln n (text ! n))"
      by (rule span_of_new [OF assms(3)])
    show ?thesis
      unfolding eq using old new gap assms(2) False
      by (simp add: separated_snoc) (simp add: new_error_def)
  qed
qed


subsection \<open>Invariants of the token loop\<close>

declare lex_loop.simps(2) [simp del]

lemma lex_loop_invariant:
  assumes run: "lex_loop cwd bef rest s = Inr s'"
    and init: "I bef rest s"
    and ign: "\<And>bef ch rest s. I bef (ch # rest) s \<Longrightarrow> ch \<in> set lexignore \<Longrightarrow> I (ch # bef) rest s"
    and err: "\<And>bef ch rest s. I bef (ch # rest) s \<Longrightarrow> ch \<notin> set lexignore \<Longrightarrow>
        I (ch # bef) rest (t_ANY_error (lineno (snd s)) (length bef) ch (fst s), snd s)"
    and tok: "\<And>cwd bef rest s r h q s1. I bef rest s \<Longrightarrow>
        (r, h) \<in> set (rules cwd (lexstate (snd s))) \<Longrightarrow> q \<in> set (rx_match r (bef, rest)) \<Longrightarrow>
        length (snd q) < length rest \<Longrightarrow> h (matched (bef, rest) q) s = Inr s1 \<Longrightarrow>
        I (fst q) (snd q) s1"
  shows "\<exists>bef'. I bef' [] s'"
  using run init
proof (induction cwd bef rest s rule: lex_loop.induct)
  case (1 cwd bef s)
  then show ?case by auto
next
  case (2 cwd bef ch rest s)
  note step = lex_loop.simps(2) [of cwd bef ch rest s]
  show ?case
  proof (cases "ch \<in> set lexignore")
    case True
    with "2.prems"(1) have "lex_loop cwd (ch # bef) rest s = Inr s'"
      by (simp add: step)
    moreover have "I (ch # bef) rest s"
      using "2.prems"(2) True by (rule ign)
    ultimately show ?thesis
      using "2.IH"(1) [OF True] by blast
  next
    case False
    show ?thesis
    proof (cases "first_rule (rules cwd (lexstate (snd s))) (bef, ch # rest)")
      case None
      let ?s = "(t_ANY_error (lineno (snd s)) (length bef) ch (fst s), snd s)"
      from "2.prems"(1) False None have "lex_loop cwd (ch # bef) rest ?s = Inr s'"
        by (simp add: step)
      moreover have "I (ch # bef) rest ?s"
        using "2.prems"(2) False by (rule err)
      ultimately show ?thesis
        using "2.IH"(2) [OF False None] by blast
    next
      case (Some hq)
      obtain h q where hq: "(h, q) = hq"
        by (cases hq) auto
      from "2.prems"(1) False Some hq
      have len: "length (snd q) < length (ch # rest)"
        by (auto simp: step split: if_splits)
      from "2.prems"(1) False Some hq len
      obtain s1 where s1: "h (matched (bef, ch # rest) q) s = Inr s1"
        and run1: "lex_loop cwd (fst q) (snd q) s1 = Inr s'"
        by (auto simp: step split: sum.splits)
      from Some hq obtain r where r: "(r, h) \<in> set (rules cwd (lexstate (snd s)))"
        "q \<in> set (rx_match r (bef, ch # rest))"
        using first_rule_in [of "rules cwd (lexstate (snd s))" "(bef, ch # rest)" h q] by auto
      have "I (fst q) (snd q) s1"
        using "2.prems"(2) r len s1 by (rule tok)
      with run1 show ?thesis
        using "2.IH"(3) [OF False Some hq len s1] by blast
    qed
  qed
qed

lemma lex_loop_spans:
  assumes "lex_loop cwd bef rest s = Inr s'"
    and "\<forall>e\<in>set (error (fst s)). span_of (rev bef @ rest) (length bef) e \<and> snd (e_line e) \<le> lineno (snd s)"
    and "separated (error (fst s))"
  shows "(\<forall>e\<in>set (error (fst s')). span_of (rev bef @ rest) (length bef + length rest) e)
    \<and> separated (error (fst s'))"
proof -
  define tx where "tx = rev bef @ rest"
  define I :: "string \<Rightarrow> string \<Rightarrow> lex_state \<Rightarrow> bool" where "I = (\<lambda>b r s. rev b @ r = tx
      \<and> (\<forall>e\<in>set (error (fst s)). span_of tx (length b) e \<and> snd (e_line e) \<le> lineno (snd s))
      \<and> separated (error (fst s)))"
  have init: "I bef rest s"
    using assms(2,3) by (simp add: I_def tx_def)
  have ign: "I (ch # b) r s" if "I b (ch # r) s" for b ch r s
    using that span_of_mono [of tx "length b" _ "Suc (length b)"] by (auto simp: I_def)
  have err: "I (ch # b) r (t_ANY_error (lineno (snd s)) (length b) ch (fst s), snd s)"
    if "I b (ch # r) s" for b ch r s
  proof -
    have n: "length b < length tx" "tx ! length b = ch"
      using that by (auto simp: I_def nth_append)
    from that t_ANY_error_spans [of "fst s" tx "length b" "lineno (snd s)", OF _ _ n(1)]
    show ?thesis
      by (simp add: I_def n(2))
  qed
  have tok: "I (fst q) (snd q) s1"
    if "I b r s" and "(x, h) \<in> set (rules d (lexstate (snd s)))"
      and "q \<in> set (rx_match x (b, r))" and "length (snd q) < length r"
      and "h (matched (b, r) q) s = Inr s1" for d b r s x h q s1
  proof -
    have same: "rev (fst q) @ snd q = rev b @ r"
      using rx_match_text [OF that(3)] by simp
    have "length (fst q) + length (snd q) = length b + length r"
      using arg_cong [OF same, of length] by simp
    then have le: "length b \<le> length (fst q)"
      using that(4) by simp
    from handler_frame [OF that(2,5)] have fr: "error (fst s1) = error (fst s)"
      "lineno (snd s) \<le> lineno (snd s1)"
      by simp_all
    show ?thesis
      using that(1) same fr le span_of_mono [of tx "length b" _ "length (fst q)"]
      by (auto simp: I_def)
  qed
  have "\<exists>b. I b [] s'"
  proof (rule lex_loop_invariant [where I = I, OF assms(1) init])
    fix b ch r s
    assume "I b (ch # r) s"
    then show "I (ch # b) r s"
      by (rule ign)
  next
    fix b ch r s
    assume "I b (ch # r) s"
    then show "I (ch # b) r (t_ANY_error (lineno (snd s)) (length b) ch (fst s), snd s)"
      by (rule err)
  next
    fix d b r s x h q s1
    assume "I b r s" and "(x, h) \<in> set (rules d (lexstate (snd s)))"
      and "q \<in> set (rx_match x (b, r))" and "length (snd q) < length r"
      and "h (matched (b, r) q) s = Inr s1"
    then show "I (fst q) (snd q) s1"
      by (rule tok)
  qed
  then obtain b where "I b [] s'"
    by blast
  then show ?thesis
    by (auto simp: I_def tx_def) (metis length_append length_rev)+
qed


subsection \<open>The error handler\<close>

lemma t_ANY_error_new:
  "error c = [] \<or> snd (e_index (last (error c))) + 1 \<noteq> t_lexpos \<Longrightarrow>
   error (t_ANY_error t_lineno t_lexpos ch c) = error c @ [new_error t_lineno t_lexpos ch]"
  by (auto simp: t_ANY_error_def)

lemma t_ANY_error_extend:
  "error c \<noteq> [] \<Longrightarrow> snd (e_index (last (error c))) + 1 = t_lexpos \<Longrightarrow>
   error (t_ANY_error t_lineno t_lexpos ch c) =
     butlast (error c) @
       [(last (error c))\<lparr>e_line := (fst (e_line (last (error c))), t_lineno),
                         e_index := (fst (e_index (last (error c))), t_lexpos),
                         e_value := e_value (last (error c)) @ [ch]\<rparr>]"
  by (auto simp: t_ANY_error_def)

lemma error_run_extend:
  "error c \<noteq> [] \<Longrightarrow> snd (e_index (last (error c))) + 1 = t_lexpos \<Longrightarrow> chs \<noteq> [] \<Longrightarrow>
   error (error_run t_lineno t_lexpos chs c) =
     butlast (error c) @
       [(last (error c))\<lparr>e_line := (fst (e_line (last (error c))), t_lineno),
                         e_index := (fst (e_index (last (error c))), t_lexpos + length chs - 1),
                         e_value := e_value (last (error c)) @ chs\<rparr>]"
proof (induction chs arbitrary: c t_lexpos)
  case Nil
  then show ?case by simp
next
  case (Cons ch chs)
  let ?c = "t_ANY_error t_lineno t_lexpos ch c"
  have step: "error ?c = butlast (error c) @
       [(last (error c))\<lparr>e_line := (fst (e_line (last (error c))), t_lineno),
                         e_index := (fst (e_index (last (error c))), t_lexpos),
                         e_value := e_value (last (error c)) @ [ch]\<rparr>]"
    using Cons.prems(1,2) by (rule t_ANY_error_extend)
  show ?case
  proof (cases "chs = []")
    case True
    then show ?thesis by (simp add: step)
  next
    case False
    have "error ?c \<noteq> []" "snd (e_index (last (error ?c))) + 1 = Suc t_lexpos"
      by (simp_all add: step)
    from Cons.IH [OF this False] show ?thesis
      by (simp add: step)
  qed
qed

lemma error_run_new:
  assumes "chs \<noteq> []" and "error c = [] \<or> snd (e_index (last (error c))) + 1 < t_lexpos"
  shows "error (error_run t_lineno t_lexpos chs c) =
     error c @ [\<lparr>e_line = (t_lineno, t_lineno),
                  e_index = (t_lexpos, t_lexpos + length chs - 1), e_value = chs\<rparr>]"
proof -
  obtain ch chs' where chs: "chs = ch # chs'"
    using assms(1) by (cases chs) auto
  let ?c = "t_ANY_error t_lineno t_lexpos ch c"
  have step: "error ?c = error c @ [new_error t_lineno t_lexpos ch]"
    using assms(2) by (intro t_ANY_error_new) auto
  show ?thesis
  proof (cases "chs' = []")
    case True
    then show ?thesis by (simp add: chs step new_error_def)
  next
    case False
    have "error ?c \<noteq> []" "snd (e_index (last (error ?c))) + 1 = Suc t_lexpos"
      by (simp_all add: step new_error_def)
    from error_run_extend [OF this False, of t_lineno] show ?thesis
      by (simp add: chs step new_error_def)
  qed
qed

text \<open>
  C3. The handler of an illegal character starts the first span when there is none,
  extends the last span (end line, end offset, text) when the offset is one past the
  end of that span, and starts a new span when the offset is further away. So a run of
  illegal characters at consecutive offsets that does not continue the last span gives
  exactly one new span, from the first to the last offset of the run and with the
  characters of the run. And after lexing any text, from a configuration without
  errors: every span lies in the text, its value is the text between its two offsets,
  and between two consecutive spans there is a gap of more than one offset.
\<close>

theorem error_spans_merge:
  "(error c = [] \<longrightarrow>
      error (t_ANY_error t_lineno t_lexpos ch c) = [new_error t_lineno t_lexpos ch])
   \<and> (error c \<noteq> [] \<and> t_lexpos = snd (e_index (last (error c))) + 1 \<longrightarrow>
        error (t_ANY_error t_lineno t_lexpos ch c) =
          butlast (error c) @
            [(last (error c))\<lparr>e_line := (fst (e_line (last (error c))), t_lineno),
                              e_index := (fst (e_index (last (error c))), t_lexpos),
                              e_value := e_value (last (error c)) @ [ch]\<rparr>])
   \<and> (error c \<noteq> [] \<and> snd (e_index (last (error c))) + 1 < t_lexpos \<longrightarrow>
        error (t_ANY_error t_lineno t_lexpos ch c) = error c @ [new_error t_lineno t_lexpos ch])
   \<and> (chs \<noteq> [] \<and> (error c = [] \<or> snd (e_index (last (error c))) + 1 < t_lexpos) \<longrightarrow>
        error (error_run t_lineno t_lexpos chs c) =
          error c @ [\<lparr>e_line = (t_lineno, t_lineno),
                       e_index = (t_lexpos, t_lexpos + length chs - 1), e_value = chs\<rparr>])
   \<and> (lex cwd txt c = Inr s' \<and> error c = [] \<longrightarrow>
        (\<forall>e\<in>set (error (fst s')). span_of txt (length txt) e) \<and> separated (error (fst s')))"
proof -
  have first: "error (t_ANY_error t_lineno t_lexpos ch c) = [new_error t_lineno t_lexpos ch]"
    if "error c = []"
    using that t_ANY_error_new [of c t_lexpos t_lineno ch] by simp
  have extend: "error (t_ANY_error t_lineno t_lexpos ch c) =
          butlast (error c) @
            [(last (error c))\<lparr>e_line := (fst (e_line (last (error c))), t_lineno),
                              e_index := (fst (e_index (last (error c))), t_lexpos),
                              e_value := e_value (last (error c)) @ [ch]\<rparr>]"
    if "error c \<noteq> []" and "t_lexpos = snd (e_index (last (error c))) + 1"
    using that t_ANY_error_extend [of c t_lexpos t_lineno ch] by simp
  have apart: "error (t_ANY_error t_lineno t_lexpos ch c) = error c @ [new_error t_lineno t_lexpos ch]"
    if "snd (e_index (last (error c))) + 1 < t_lexpos"
    using that t_ANY_error_new [of c t_lexpos t_lineno ch] by simp
  have run: "error (error_run t_lineno t_lexpos chs c) =
          error c @ [\<lparr>e_line = (t_lineno, t_lineno),
                       e_index = (t_lexpos, t_lexpos + length chs - 1), e_value = chs\<rparr>]"
    if "chs \<noteq> []" and "error c = [] \<or> snd (e_index (last (error c))) + 1 < t_lexpos"
    using that by (rule error_run_new)
  have whole: "(\<forall>e\<in>set (error (fst s')). span_of txt (length txt) e) \<and> separated (error (fst s'))"
    if "lex cwd txt c = Inr s'" and "error c = []"
    using lex_loop_spans [of cwd "[]" "txt" "(c, new_lexer)" s'] that
    by (simp add: lex_def)
  show ?thesis
    using first extend apart run whole by blast
qed

theorem error_spans_merge_witness:
  "error (init_config ''/t/temoa_model'' None) = []
   \<and> error (t_ANY_error 1 0 (CHR ''@'') (init_config ''/t/temoa_model'' None))
       = [\<lparr>e_line = (1, 1), e_index = (0, 0), e_value = ''@''\<rparr>]
   \<and> error (t_ANY_error 2 1 (CHR ''!'')
         (init_config ''/t/temoa_model'' None
            \<lparr>error := [\<lparr>e_line = (1, 1), e_index = (0, 0), e_value = ''@''\<rparr>]\<rparr>))
       = [\<lparr>e_line = (1, 2), e_index = (0, 1), e_value = ''@!''\<rparr>]
   \<and> error (t_ANY_error 2 3 (CHR ''!'')
         (init_config ''/t/temoa_model'' None
            \<lparr>error := [\<lparr>e_line = (1, 1), e_index = (0, 0), e_value = ''@''\<rparr>]\<rparr>))
       = [\<lparr>e_line = (1, 1), e_index = (0, 0), e_value = ''@''\<rparr>,
          \<lparr>e_line = (2, 2), e_index = (3, 3), e_value = ''!''\<rparr>]
   \<and> error (error_run 1 5 ''@!?'' (init_config ''/t/temoa_model'' None))
       = [\<lparr>e_line = (1, 1), e_index = (5, 7), e_value = ''@!?''\<rparr>]
   \<and> lex ''/w'' ''@@ @'' (init_config ''/t/temoa_model'' None)
       = Inr (init_config ''/t/temoa_model'' None
                \<lparr>error := [\<lparr>e_line = (1, 1), e_index = (0, 1), e_value = ''@@''\<rparr>,
                            \<lparr>e_line = (1, 1), e_index = (3, 3), e_value = ''@''\<rparr>]\<rparr>,
              new_lexer)
   \<and> span_of ''@@ @'' (length ''@@ @'') \<lparr>e_line = (1, 1), e_index = (0, 1), e_value = ''@@''\<rparr>
   \<and> separated [\<lparr>e_line = (1, 1), e_index = (0, 1), e_value = ''@@''\<rparr>,
                 \<lparr>e_line = (1, 1), e_index = (3, 3), e_value = ''@''\<rparr>]"
proof -
  let ?c = "init_config ''/t/temoa_model'' None"
  let ?d = "?c\<lparr>error := [\<lparr>e_line = (1, 1), e_index = (0, 0), e_value = ''@''\<rparr>]\<rparr>"
  let ?s = "(?c\<lparr>error := [\<lparr>e_line = (1, 1), e_index = (0, 1), e_value = ''@@''\<rparr>,
                            \<lparr>e_line = (1, 1), e_index = (3, 3), e_value = ''@''\<rparr>]\<rparr>, new_lexer)"
  have none: "error ?c = []"
    by (simp add: init_config_def)
  have some: "error ?d \<noteq> []" "last (error ?d) = \<lparr>e_line = (1, 1), e_index = (0, 0), e_value = ''@''\<rparr>"
    by simp_all
  have run: "lex ''/w'' ''@@ @'' ?c = Inr ?s"
    by code_simp
  note a = error_spans_merge [of ?c 1 0 "CHR ''@''" "''@!?''" "''/w''" "''@@ @''" ?s]
  note b = error_spans_merge [of ?d 2 1 "CHR ''!''" "''@!?''" "''/w''" "''@@ @''" ?s]
  note c = error_spans_merge [of ?d 2 3 "CHR ''!''" "''@!?''" "''/w''" "''@@ @''" ?s]
  note d = error_spans_merge [of ?c 1 5 "CHR ''@''" "''@!?''" "''/w''" "''@@ @''" ?s]
  have first: "error (t_ANY_error 1 0 (CHR ''@'') ?c)
       = [\<lparr>e_line = (1, 1), e_index = (0, 0), e_value = ''@''\<rparr>]"
    using a [THEN conjunct1] none by (simp add: new_error_def)
  have extend: "error (t_ANY_error 2 1 (CHR ''!'') ?d)
       = [\<lparr>e_line = (1, 2), e_index = (0, 1), e_value = ''@!''\<rparr>]"
    using b [THEN conjunct2, THEN conjunct1] some by simp
  have apart: "error (t_ANY_error 2 3 (CHR ''!'') ?d)
       = [\<lparr>e_line = (1, 1), e_index = (0, 0), e_value = ''@''\<rparr>,
          \<lparr>e_line = (2, 2), e_index = (3, 3), e_value = ''!''\<rparr>]"
    using c [THEN conjunct2, THEN conjunct2, THEN conjunct1] some by (simp add: new_error_def)
  have many: "error (error_run 1 5 ''@!?'' ?c)
       = [\<lparr>e_line = (1, 1), e_index = (5, 7), e_value = ''@!?''\<rparr>]"
    using d [THEN conjunct2, THEN conjunct2, THEN conjunct2, THEN conjunct1] none by simp
  have whole: "span_of ''@@ @'' (length ''@@ @'') \<lparr>e_line = (1, 1), e_index = (0, 1), e_value = ''@@''\<rparr>
     \<and> separated [\<lparr>e_line = (1, 1), e_index = (0, 1), e_value = ''@@''\<rparr>,
                 \<lparr>e_line = (1, 1), e_index = (3, 3), e_value = ''@''\<rparr>]"
    using a [THEN conjunct2, THEN conjunct2, THEN conjunct2, THEN conjunct2] run none
    by simp
  show ?thesis
    using none first extend apart many run whole by simp
qed


subsection \<open>The line counter\<close>

text \<open>
  C8, as the code has it. A line feed alone and a carriage return alone add one to the
  line counter, but the pair carriage return, line feed is one token of two
  characters, and \<open>t_ANY_newline\<close> adds the length of the token: the counter of a
  fresh lexer, which is 1, is 3 after the pair.
\<close>

theorem crlf_counted_twice:
  "lex cwd [CHR 0x0A] c = Inr (c, new_lexer\<lparr>lineno := 2\<rparr>)
   \<and> lex cwd [CHR 0x0D] c = Inr (c, new_lexer\<lparr>lineno := 2\<rparr>)
   \<and> rx_first rx_newline ([], [CHR 0x0D, CHR 0x0A]) = Some ([CHR 0x0A, CHR 0x0D], [])
   \<and> lex cwd [CHR 0x0D, CHR 0x0A] c = Inr (c, new_lexer\<lparr>lineno := 3\<rparr>)"
  by (simp add: lex_def lex_loop.simps rx_match.simps lexignore_def rules_def new_lexer_def
      rx_first_def rx_COMMENT_def rx_dot_dat_def rx_output_def key_word_def key_flag_def
      key_digits_def key_path_def key_brace_def rx_newline_def seps_def matched_def
      t_ANY_newline_def)


subsection \<open>Paths and their extensions\<close>



lemma ends_with_last: "ends_with e s \<Longrightarrow> e \<noteq> [] \<Longrightarrow> s \<noteq> [] \<and> last s = last e"
proof -
  assume e: "ends_with e s" "e \<noteq> []"
  then have "s = take (length s - length e) s @ e"
    by (metis append_take_drop_id ends_with_def)
  then obtain a where "s = a @ e"
    by blast
  with e(2) show ?thesis by simp
qed













subsection \<open>The value of a directive\<close>






lemma sep_char_space: "sep_char c \<Longrightarrow> is_space (if c = CHR ''='' then CHR '' '' else c)"
  by (auto simp: sep_char_def is_space_def Let_def)


subsection \<open>The \<open>--input\<close> directive\<close>
















end
